theory Spec2Isabelle
  imports Main "HOL-Library.Log_Nat"
begin

section \<open>JavaScript numbers\<close>

text \<open>
  A JavaScript number is an IEEE 754 binary64 value: NaN, an infinity, or a finite value
  with a sign (there are two zeros). A finite value is kept as its sign and its exact
  magnitude, a rational; every operation rounds its exact result to the nearest binary64
  value, ties to even, as the language requires.
\<close>

datatype sign = Pos | Neg

datatype number = NaN | Infinity sign | Finite sign rat

definition xor_sign :: "sign \<Rightarrow> sign \<Rightarrow> sign" where
  "xor_sign s t = (if s = t then Pos else Neg)"

definition flip :: "sign \<Rightarrow> sign" where
  "flip s = (case s of Pos \<Rightarrow> Neg | Neg \<Rightarrow> Pos)"

definition signed :: "sign \<Rightarrow> rat \<Rightarrow> rat" where
  "signed s a = (case s of Pos \<Rightarrow> a | Neg \<Rightarrow> - a)"

definition sign_of :: "rat \<Rightarrow> sign" where
  "sign_of r = (if r < 0 then Neg else Pos)"

text \<open>Round a rational to the nearest integer, ties to the even one.\<close>

definition round_half_even :: "rat \<Rightarrow> int" where
  "round_half_even q =
     (let f = \<lfloor>q\<rfloor>; r = q - of_int f
      in if r < 1 / 2 then f else if 1 / 2 < r then f + 1 else if even f then f else f + 1)"

text \<open>The exponent of the binade of a positive rational: \<open>\<lfloor>log\<^sub>2 a\<rfloor>\<close>.\<close>

definition ilog2 :: "rat \<Rightarrow> int" where
  "ilog2 a =
     (let (n, d) = quotient_of a;
          k = bitlen n - bitlen d
      in if a < 2 powi k then k - 1 else k)"

text \<open>
  The binary64 value of a sign and an exact magnitude: 53 significant bits, the exponent
  not below \<open>-1022\<close> (so that small magnitudes are rounded to a multiple of \<open>2\<^sup>-\<^sup>1\<^sup>0\<^sup>7\<^sup>4\<close>),
  and infinity when the rounded magnitude reaches \<open>2\<^sup>1\<^sup>0\<^sup>2\<^sup>4\<close>.
\<close>

definition to_double :: "sign \<Rightarrow> rat \<Rightarrow> number" where
  "to_double s a =
     (if a = 0 then Finite s 0
      else let e = max (ilog2 a) (- 1022);
               q = 2 powi (e - 52);
               r = of_int (round_half_even (a / q)) * q
           in if 2 ^ 1024 \<le> r then Infinity s else Finite s r)"

text \<open>The arithmetic operators the program uses, \<open>-\<close> and \<open>/\<close>, on numbers.\<close>

fun js_sub :: "number \<Rightarrow> number \<Rightarrow> number" where
  "js_sub NaN _ = NaN"
| "js_sub _ NaN = NaN"
| "js_sub (Infinity s) (Infinity t) = (if s = t then NaN else Infinity s)"
| "js_sub (Infinity s) (Finite _ _) = Infinity s"
| "js_sub (Finite _ _) (Infinity t) = Infinity (flip t)"
| "js_sub (Finite s a) (Finite t b) =
     (let r = signed s a - signed t b
      in if r = 0 then Finite (if s = Neg \<and> t = Pos then Neg else Pos) 0
         else to_double (sign_of r) \<bar>r\<bar>)"

fun js_div :: "number \<Rightarrow> number \<Rightarrow> number" where
  "js_div NaN _ = NaN"
| "js_div _ NaN = NaN"
| "js_div (Infinity s) (Infinity t) = NaN"
| "js_div (Infinity s) (Finite t _) = Infinity (xor_sign s t)"
| "js_div (Finite s _) (Infinity t) = Finite (xor_sign s t) 0"
| "js_div (Finite s a) (Finite t b) =
     (if b = 0 then (if a = 0 then NaN else Infinity (xor_sign s t))
      else to_double (xor_sign s t) (a / b))"

text \<open>
  The program itself neither adds nor multiplies; \<open>+\<close> and \<open>*\<close> are here for the
  specification's \<open>denormalize\<close>.
\<close>

fun js_add :: "number \<Rightarrow> number \<Rightarrow> number" where
  "js_add NaN _ = NaN"
| "js_add _ NaN = NaN"
| "js_add (Infinity s) (Infinity t) = (if s = t then Infinity s else NaN)"
| "js_add (Infinity s) (Finite _ _) = Infinity s"
| "js_add (Finite _ _) (Infinity t) = Infinity t"
| "js_add (Finite s a) (Finite t b) =
     (let r = signed s a + signed t b
      in if r = 0 then Finite (if s = Neg \<and> t = Neg then Neg else Pos) 0
         else to_double (sign_of r) \<bar>r\<bar>)"

fun js_mul :: "number \<Rightarrow> number \<Rightarrow> number" where
  "js_mul NaN _ = NaN"
| "js_mul _ NaN = NaN"
| "js_mul (Infinity s) (Infinity t) = Infinity (xor_sign s t)"
| "js_mul (Infinity s) (Finite t b) = (if b = 0 then NaN else Infinity (xor_sign s t))"
| "js_mul (Finite s a) (Infinity t) = (if a = 0 then NaN else Infinity (xor_sign s t))"
| "js_mul (Finite s a) (Finite t b) = to_double (xor_sign s t) (a * b)"

text \<open>
  The comparisons the program uses: \<open>x > y\<close> and \<open>x === y\<close> on numbers. Any
  comparison with NaN is false, and the two zeros are equal.
\<close>

fun js_gt :: "number \<Rightarrow> number \<Rightarrow> bool" where
  "js_gt NaN _ = False"
| "js_gt _ NaN = False"
| "js_gt (Infinity s) (Infinity t) = (s = Pos \<and> t = Neg)"
| "js_gt (Infinity s) (Finite _ _) = (s = Pos)"
| "js_gt (Finite _ _) (Infinity t) = (t = Neg)"
| "js_gt (Finite s a) (Finite t b) = (signed t b < signed s a)"

fun strict_equals :: "number \<Rightarrow> number \<Rightarrow> bool" where
  "strict_equals (Infinity s) (Infinity t) = (s = t)"
| "strict_equals (Finite s a) (Finite t b) = (signed s a = signed t b)"
| "strict_equals _ _ = False"

section \<open>Strings to numbers\<close>

text \<open>
  \<open>Number(s)\<close> on a string \<open>s\<close> is the language's StringToNumber: white space is
  trimmed at both ends, the empty text is \<open>+0\<close>, a text of the StringNumericLiteral grammar
  is its value rounded to binary64, and every other text is NaN. Strings are modelled with
  8-bit characters, so the white space is the part of the language's white space and line
  terminators below U+0100. A decimal literal is rounded from its exact value, as the
  engines do for literals of any length.
\<close>

definition StrWhiteSpaceChar :: "char \<Rightarrow> bool" where
  "StrWhiteSpaceChar c \<longleftrightarrow>
     c \<in> set [CHR 0x09, CHR 0x0A, CHR 0x0B, CHR 0x0C, CHR 0x0D, CHR 0x20, CHR 0xA0]"

definition trim :: "string \<Rightarrow> string" where
  "trim s = rev (dropWhile StrWhiteSpaceChar (rev (dropWhile StrWhiteSpaceChar s)))"

definition digit_value :: "char \<Rightarrow> nat" where
  "digit_value c =
     (let n = of_char c
      in if 48 \<le> n \<and> n \<le> 57 then n - 48
         else if 97 \<le> n \<and> n \<le> 102 then n - 87
         else if 65 \<le> n \<and> n \<le> 70 then n - 55
         else 16)"

definition digits_value :: "nat \<Rightarrow> string \<Rightarrow> int" where
  "digits_value base s = foldl (\<lambda>n c. int base * n + int (digit_value c)) 0 s"

definition digits_in :: "nat \<Rightarrow> string \<Rightarrow> int option" where
  "digits_in base s =
     (if s \<noteq> [] \<and> list_all (\<lambda>c. digit_value c < base) s
      then Some (digits_value base s)
      else None)"

definition SignedInteger :: "string \<Rightarrow> int option" where
  "SignedInteger s =
     (case s of
        [] \<Rightarrow> None
      | c # ds \<Rightarrow>
          if c = CHR ''+'' then digits_in 10 ds
          else if c = CHR ''-'' then map_option uminus (digits_in 10 ds)
          else digits_in 10 s)"

definition ExponentPart :: "string \<Rightarrow> int option" where
  "ExponentPart s =
     (case s of
        [] \<Rightarrow> Some 0
      | c # r \<Rightarrow> if c = CHR ''e'' \<or> c = CHR ''E'' then SignedInteger r else None)"

definition is_decimal_digit :: "char \<Rightarrow> bool" where
  "is_decimal_digit c \<longleftrightarrow> digit_value c < 10"

definition StrUnsignedDecimalLiteral :: "sign \<Rightarrow> string \<Rightarrow> number option" where
  "StrUnsignedDecimalLiteral sg s =
     (if s = ''Infinity'' then Some (Infinity sg)
      else
        let ip = takeWhile is_decimal_digit s;
            r1 = dropWhile is_decimal_digit s;
            dot = (r1 \<noteq> [] \<and> hd r1 = CHR ''.'');
            fp = (if dot then takeWhile is_decimal_digit (tl r1) else []);
            r2 = (if dot then dropWhile is_decimal_digit (tl r1) else r1)
        in if ip = [] \<and> fp = [] then None
           else case ExponentPart r2 of
                  None \<Rightarrow> None
                | Some ex \<Rightarrow>
                    Some (to_double sg
                      (of_int (digits_value 10 (ip @ fp))
                         * 10 powi (ex - int (length fp)))))"

definition StrDecimalLiteral :: "string \<Rightarrow> number option" where
  "StrDecimalLiteral s =
     (case s of
        [] \<Rightarrow> None
      | c # r \<Rightarrow>
          if c = CHR ''+'' then StrUnsignedDecimalLiteral Pos r
          else if c = CHR ''-'' then StrUnsignedDecimalLiteral Neg r
          else StrUnsignedDecimalLiteral Pos s)"

definition NonDecimalIntegerLiteral :: "string \<Rightarrow> number option" where
  "NonDecimalIntegerLiteral s =
     (case s of
        z # p # ds \<Rightarrow>
          if z \<noteq> CHR ''0'' then None
          else if p = CHR ''x'' \<or> p = CHR ''X''
            then map_option (\<lambda>n. to_double Pos (of_int n)) (digits_in 16 ds)
          else if p = CHR ''o'' \<or> p = CHR ''O''
            then map_option (\<lambda>n. to_double Pos (of_int n)) (digits_in 8 ds)
          else if p = CHR ''b'' \<or> p = CHR ''B''
            then map_option (\<lambda>n. to_double Pos (of_int n)) (digits_in 2 ds)
          else None
      | _ \<Rightarrow> None)"

definition StringToNumber :: "string \<Rightarrow> number" where
  "StringToNumber s =
     (let t = trim s
      in if t = [] then Finite Pos 0
         else case NonDecimalIntegerLiteral t of
                Some n \<Rightarrow> n
              | None \<Rightarrow> (case StrDecimalLiteral t of Some n \<Rightarrow> n | None \<Rightarrow> NaN))"

section \<open>JavaScript values\<close>

text \<open>
  The values the program handles that are not validated numbers come from
  \<open>JSON.parse\<close> (the scaler artifact, the body of the backend's answer) or are built
  by the program as object literals: \<open>undefined\<close>, \<open>null\<close>, booleans, numbers, strings,
  arrays and plain objects. An object is the list of its own properties in insertion
  order, with distinct keys.
\<close>

datatype jsval =
    JUndefined
  | JNull
  | JBool bool
  | JNum number
  | JStr string
  | JArr "jsval list"
  | JObj "(string \<times> jsval) list"

text \<open>Everything the program can throw.\<close>

datatype error =
    ENOENT
  | SyntaxError
  | TypeError
  | ReferenceError string
  | ZodError "jsval list"
  | RequestError "nat option"

text \<open>
  \<open>RequestError st\<close> is what \<open>axios.post\<close> rejects with (no connection, a status
  outside 2xx, a bad URL); \<open>st\<close> is the \<open>status\<close> property of the error object, when it
  has one.
\<close>

definition bind :: "error + 'a \<Rightarrow> ('a \<Rightarrow> error + 'b) \<Rightarrow> error + 'b" where
  "bind r f = (case r of Inl e \<Rightarrow> Inl e | Inr x \<Rightarrow> f x)"

text \<open>
  Reading a property: \<open>v.k\<close> for the names the program reads (\<open>mean\<close>, \<open>scale\<close>,
  \<open>outputs\<close>, \<open>data\<close>; none of them is inherited from a prototype) and \<open>v[i]\<close> for an
  array index \<open>i\<close>. Reading a property of \<open>undefined\<close> or \<open>null\<close> throws a TypeError;
  a property that is not there is \<open>undefined\<close>.
\<close>

fun get_property :: "jsval \<Rightarrow> string \<Rightarrow> error + jsval" where
  "get_property JUndefined k = Inl TypeError"
| "get_property JNull k = Inl TypeError"
| "get_property (JObj kvs) k = Inr (case map_of kvs k of None \<Rightarrow> JUndefined | Some v \<Rightarrow> v)"
| "get_property _ k = Inr JUndefined"

fun decimal :: "nat \<Rightarrow> string" where
  "decimal n =
     (if n < 10 then [char_of (48 + n)]
      else decimal (n div 10) @ [char_of (48 + n mod 10)])"

fun get_index :: "jsval \<Rightarrow> nat \<Rightarrow> error + jsval" where
  "get_index JUndefined i = Inl TypeError"
| "get_index JNull i = Inl TypeError"
| "get_index (JArr xs) i = Inr (if i < length xs then xs ! i else JUndefined)"
| "get_index (JStr s) i = Inr (if i < length s then JStr [s ! i] else JUndefined)"
| "get_index (JObj kvs) i =
     Inr (case map_of kvs (decimal i) of None \<Rightarrow> JUndefined | Some v \<Rightarrow> v)"
| "get_index _ i = Inr JUndefined"

text \<open>
  ToNumber, applied by \<open>-\<close>, \<open>/\<close> and \<open>>\<close> to an operand. An array or object is
  first turned into a primitive, its string: an object into \<open>[object Object]\<close>, an array
  into its elements' strings joined by commas (\<open>null\<close> and \<open>undefined\<close> giving the empty
  string). An object that has a property \<open>toString\<close> of its own throws a TypeError
  instead, the property's value not being a function and \<open>valueOf\<close> giving no primitive;
  so does an array that holds such an object.
\<close>

fun ToString_throws :: "jsval \<Rightarrow> bool" where
  "ToString_throws (JObj kvs) = (map_of kvs ''toString'' \<noteq> None)"
| "ToString_throws (JArr xs) = list_ex ToString_throws xs"
| "ToString_throws _ = False"

text \<open>
  An array of two or more elements is NaN, its string having a comma, and an array of one
  element is the number of that element's string; the string of a number reads back as
  that number, \<open>-0\<close> as \<open>0\<close>.
\<close>

fun ToNumber :: "jsval \<Rightarrow> error + number" where
  "ToNumber JUndefined = Inr NaN"
| "ToNumber JNull = Inr (Finite Pos 0)"
| "ToNumber (JBool b) = Inr (Finite Pos (if b then 1 else 0))"
| "ToNumber (JNum x) = Inr x"
| "ToNumber (JStr s) = Inr (StringToNumber s)"
| "ToNumber (JObj kvs) = (if ToString_throws (JObj kvs) then Inl TypeError else Inr NaN)"
| "ToNumber (JArr []) = Inr (Finite Pos 0)"
| "ToNumber (JArr (v # w # vs)) =
     (if ToString_throws (JArr (v # w # vs)) then Inl TypeError else Inr NaN)"
| "ToNumber (JArr [v]) =
     (case v of
        JUndefined \<Rightarrow> Inr (Finite Pos 0)
      | JNull \<Rightarrow> Inr (Finite Pos 0)
      | JBool b \<Rightarrow> Inr NaN
      | JNum x \<Rightarrow>
          Inr (case x of Finite s a \<Rightarrow> if a = 0 then Finite Pos 0 else x | _ \<Rightarrow> x)
      | JStr s \<Rightarrow> Inr (StringToNumber s)
      | JArr xs \<Rightarrow> ToNumber (JArr xs)
      | JObj kvs \<Rightarrow> if ToString_throws (JObj kvs) then Inl TypeError else Inr NaN)"

text \<open>
  \<open>Number(v)\<close>. The program applies it to a string (lines 16 to 20) and to a string or
  a number (line 165): the number of the string, or the number itself.
\<close>

definition Number :: "string + number \<Rightarrow> number" where
  "Number v = (case v of Inl s \<Rightarrow> StringToNumber s | Inr x \<Rightarrow> x)"

section \<open>The scaler artifact\<close>

text \<open>
  \<^verbatim>\<open>const scalerData = JSON.parse(fs.readFileSync('src/scaler.json', 'utf-8'));\<close>

  A file's text is identified by what \<open>JSON.parse\<close> makes of it: a SyntaxError, or the
  value it denotes. A file system maps a path to the text of the file there, if there is
  one. The statement runs when the module is loaded, before \<open>app.listen\<close>; when it throws,
  the process ends without having listened.
\<close>

datatype file_text = Malformed | Denotes jsval

type_synonym fs = "string \<Rightarrow> file_text option"

definition fs_readFileSync :: "fs \<Rightarrow> string \<Rightarrow> error + file_text" where
  "fs_readFileSync files p = (case files p of None \<Rightarrow> Inl ENOENT | Some t \<Rightarrow> Inr t)"

definition JSON_parse :: "file_text \<Rightarrow> error + jsval" where
  "JSON_parse t = (case t of Malformed \<Rightarrow> Inl SyntaxError | Denotes v \<Rightarrow> Inr v)"

definition load_scalerData :: "fs \<Rightarrow> error + jsval" where
  "load_scalerData files = bind (fs_readFileSync files ''src/scaler.json'') JSON_parse"

section \<open>Validation of the query\<close>

text \<open>
  \<open>req.query\<close> gives for a parameter name a string, an array (a repeated parameter) or
  an object (a bracketed one), or nothing when the parameter is absent.
\<close>

datatype qval = QString string | QArray "qval list" | QObject "(string \<times> qval) list"

type_synonym query = "string \<Rightarrow> qval option"

record validatedData =
  distance :: number
  ratio_to_median :: number
  pin :: number
  chip :: number
  online :: number

text \<open>
  The schema, with zod's steps: \<open>z.string()\<close> accepts a string and reports an
  \<open>invalid_type\<close> issue otherwise; \<open>transform\<close> applies its function to an accepted
  value and checks nothing; \<open>refine\<close> reports a \<open>custom\<close> issue when its predicate is
  false of an accepted value. \<open>z.object\<close> parses every key of the shape, in order, drops
  the other keys, and throws a ZodError holding all the issues if there are any. An issue
  is the object that zod 3 puts into \<open>error.errors\<close>.
\<close>

definition parsed_type :: "qval option \<Rightarrow> string" where
  "parsed_type v =
     (case v of
        None \<Rightarrow> ''undefined''
      | Some (QString s) \<Rightarrow> ''string''
      | Some (QArray xs) \<Rightarrow> ''array''
      | Some (QObject kvs) \<Rightarrow> ''object'')"

definition invalid_type_issue :: "string \<Rightarrow> qval option \<Rightarrow> jsval" where
  "invalid_type_issue key v =
     JObj [(''code'', JStr ''invalid_type''),
           (''expected'', JStr ''string''),
           (''received'', JStr (parsed_type v)),
           (''path'', JArr [JStr key]),
           (''message'', JStr (if v = None then ''Required''
                               else ''Expected string, received '' @ parsed_type v))]"

definition custom_issue :: "string \<Rightarrow> jsval" where
  "custom_issue key =
     JObj [(''code'', JStr ''custom''),
           (''message'', JStr ''Invalid input''),
           (''path'', JArr [JStr key])]"

definition z_string :: "string \<Rightarrow> qval option \<Rightarrow> jsval list + string" where
  "z_string key v =
     (case v of Some (QString s) \<Rightarrow> Inr s | _ \<Rightarrow> Inl [invalid_type_issue key v])"

definition transform :: "('a \<Rightarrow> 'b) \<Rightarrow> jsval list + 'a \<Rightarrow> jsval list + 'b" where
  "transform f r = (case r of Inl issues \<Rightarrow> Inl issues | Inr x \<Rightarrow> Inr (f x))"

definition refine :: "string \<Rightarrow> ('a \<Rightarrow> bool) \<Rightarrow> jsval list + 'a \<Rightarrow> jsval list + 'a" where
  "refine key check r =
     (case r of
        Inl issues \<Rightarrow> Inl issues
      | Inr x \<Rightarrow> if check x then Inr x else Inl [custom_issue key])"

definition zero_or_one :: "number \<Rightarrow> bool" where
  "zero_or_one val \<longleftrightarrow> strict_equals val (Finite Pos 0) \<or> strict_equals val (Finite Pos 1)"

definition issues_of :: "jsval list + 'a \<Rightarrow> jsval list" where
  "issues_of r = (case r of Inl issues \<Rightarrow> issues | Inr x \<Rightarrow> [])"

definition QuerySchema_parse :: "query \<Rightarrow> error + validatedData" where
  "QuerySchema_parse q =
     (let fd = transform (\<lambda>s. Number (Inl s)) (z_string ''distance'' (q ''distance''));
          fr = transform (\<lambda>s. Number (Inl s))
                 (z_string ''ratio_to_median'' (q ''ratio_to_median''));
          fp = refine ''pin'' zero_or_one
                 (transform (\<lambda>s. Number (Inl s)) (z_string ''pin'' (q ''pin'')));
          fc = refine ''chip'' zero_or_one
                 (transform (\<lambda>s. Number (Inl s)) (z_string ''chip'' (q ''chip'')));
          fo = refine ''online'' zero_or_one
                 (transform (\<lambda>s. Number (Inl s)) (z_string ''online'' (q ''online'')))
      in case (fd, fr, fp, fc, fo) of
           (Inr dv, Inr rv, Inr pv, Inr cv, Inr ov) \<Rightarrow>
             Inr \<lparr>distance = dv, ratio_to_median = rv, pin = pv, chip = cv, online = ov\<rparr>
         | _ \<Rightarrow>
             Inl (ZodError
               (issues_of fd @ issues_of fr @ issues_of fp @ issues_of fc @ issues_of fo)))"

section \<open>Requests, responses and the process's environment\<close>

datatype http_method = GET | HEAD | POST | PUT | DELETE | PATCH

record request =
  http_method :: http_method
  path :: string
  query :: query

text \<open>
  A response is its status and the value given to \<open>res.json\<close>, or one of the HTML pages
  that Express and the documentation middleware write: the final handler's error page,
  which shows the error's stack unless \<open>NODE_ENV\<close> is \<open>production\<close> and the status
  text otherwise, its page for a request that nothing handled, and the documentation.
\<close>

datatype page = StackTrace error | StatusText nat | CannotRoute http_method string | Documentation

datatype body = JsonBody jsval | HtmlBody page

record response =
  status :: nat
  body :: body

text \<open>A call of \<open>axios.post\<close>: the URL and the request body.\<close>

type_synonym call = "string \<times> jsval"

text \<open>What a handler does with a request: it sends a response or it calls \<open>next\<close>.\<close>

datatype outcome = Sent response | Next "error option"

text \<open>
  The environment of the running process: the value of the module's constant
  \<open>scalerData\<close>, the variables of \<open>process.env\<close>, the backend as \<open>axios.post\<close> sees it
  (the \<open>data\<close> of its answer, or the error that the call rejects with), and the
  documentation middleware, an external collaborator.
\<close>

record env =
  scalerData :: jsval
  process_env :: "string \<Rightarrow> string option"
  axios_post :: "string \<Rightarrow> jsval \<Rightarrow> error + jsval"
  swaggerUi :: "request \<Rightarrow> outcome"

section \<open>Normalization\<close>

text \<open>
  \<^verbatim>\<open>data.map((value, index) => (value - scalerData.mean[index]) / scalerData.scale[index])\<close>

  \<open>scalerData\<close> is whatever value the artifact denoted. The callback throws when the
  value has no \<open>mean\<close> or \<open>scale\<close> to index, or when the conversion of an entry
  to a number throws, and \<open>map\<close> then throws at that element.
\<close>

definition normalize_at :: "env \<Rightarrow> number \<Rightarrow> nat \<Rightarrow> error + number" where
  "normalize_at env val index =
     bind (get_property (scalerData env) ''mean'') (\<lambda>m.
     bind (get_index m index) (\<lambda>mi.
     bind (ToNumber mi) (\<lambda>subtrahend.
     bind (get_property (scalerData env) ''scale'') (\<lambda>s.
     bind (get_index s index) (\<lambda>si.
     bind (ToNumber si) (\<lambda>divisor.
       Inr (js_div (js_sub val subtrahend) divisor)))))))"

fun map_from :: "(number \<Rightarrow> nat \<Rightarrow> error + number) \<Rightarrow> nat \<Rightarrow> number list
    \<Rightarrow> error + number list" where
  "map_from f index [] = Inr []"
| "map_from f index (val # vals) =
     bind (f val index) (\<lambda>y. bind (map_from f (Suc index) vals) (\<lambda>ys. Inr (y # ys)))"

definition normalizeData :: "env \<Rightarrow> number list \<Rightarrow> error + number list" where
  "normalizeData env data = map_from (normalize_at env) 0 data"

section \<open>The prediction endpoint\<close>

text \<open>
  \<^verbatim>\<open>const agent = new https.Agent({ rejectUnauthorized: false });\<close>

  The module imports \<open>express\<close>, \<open>z\<close>, \<open>axios\<close>, \<open>swaggerUi\<close>, \<open>OpenAPIV3\<close> and
  \<open>fs\<close>, and declares no \<open>https\<close>; Node has no global of that name. Evaluating the
  identifier throws a ReferenceError.
\<close>

definition https_Agent :: "error + unit" where
  "https_Agent = Inl (ReferenceError ''https'')"

text \<open>\<^verbatim>\<open>process.env.FRAUD_MODEL_URL || ''\<close>\<close>

definition FRAUD_MODEL_URL :: "env \<Rightarrow> string" where
  "FRAUD_MODEL_URL env = (case process_env env ''FRAUD_MODEL_URL'' of None \<Rightarrow> [] | Some u \<Rightarrow> u)"

text \<open>
  The body of the call: the object literal of lines 155 to 161, with the normalized data.
\<close>

definition inference_request :: "number list \<Rightarrow> jsval" where
  "inference_request normalizedData =
     JObj [(''inputs'', JArr [JObj
       [(''name'', JStr ''dense_input''),
        (''shape'', JArr [JNum (Finite Pos 1), JNum (Finite Pos 5)]),
        (''datatype'', JStr ''FP32''),
        (''data'', JArr (map JNum normalizedData))]])]"

text \<open>\<^verbatim>\<open>response.data.outputs[0].data[0]\<close>\<close>

definition fraudProbability_of :: "jsval \<Rightarrow> error + jsval" where
  "fraudProbability_of data =
     bind (get_property data ''outputs'') (\<lambda>outputs.
     bind (get_index outputs 0) (\<lambda>output.
     bind (get_property output ''data'') (\<lambda>d.
       get_index d 0)))"

text \<open>
  \<^verbatim>\<open>Number(process.env.FRAUD_THRESHOLD || 0.95)\<close>: the variable when it is set and not
  empty, the literal \<open>0.95\<close> otherwise.
\<close>

definition threshold :: "env \<Rightarrow> number" where
  "threshold env =
     Number (case process_env env ''FRAUD_THRESHOLD'' of
               None \<Rightarrow> Inr (to_double Pos (95 / 100))
             | Some t \<Rightarrow> if t = [] then Inr (to_double Pos (95 / 100)) else Inl t)"

text \<open>
  \<^verbatim>\<open>{ is_fraud: fraudProbability > threshold, fraud_probability: fraudProbability }\<close>
\<close>

definition prediction :: "jsval \<Rightarrow> number \<Rightarrow> error + jsval" where
  "prediction fraudProbability thr =
     bind (ToNumber fraudProbability) (\<lambda>p.
       Inr (JObj [(''is_fraud'', JBool (js_gt p thr)),
                  (''fraud_probability'', fraudProbability)]))"

definition res_json :: "nat \<Rightarrow> jsval \<Rightarrow> response" where
  "res_json st v = \<lparr>status = st, body = JsonBody v\<rparr>"

text \<open>
  Lines 155 to 171, the part of the \<open>try\<close> block after the agent: the call of
  \<open>axios.post\<close>, which is made once, and then the response that is sent or the error
  that is thrown.
\<close>

definition infer :: "env \<Rightarrow> number list \<Rightarrow> call list \<times> (error + response)" where
  "infer env normalizedData =
     (let url = FRAUD_MODEL_URL env;
          payload = inference_request normalizedData
      in case axios_post env url payload of
           Inl e \<Rightarrow> ([(url, payload)], Inl e)
         | Inr data \<Rightarrow>
             (case fraudProbability_of data of
                Inl e \<Rightarrow> ([(url, payload)], Inl e)
              | Inr fraudProbability \<Rightarrow>
                  (case prediction fraudProbability (threshold env) of
                     Inl e \<Rightarrow> ([(url, payload)], Inl e)
                   | Inr result \<Rightarrow> ([(url, payload)], Inr (res_json 200 result)))))"

text \<open>
  The \<open>try\<close> block of the handler, lines 137 to 171: the calls of \<open>axios.post\<close> it has
  made, and the response it has sent or the error it has thrown.
\<close>

definition predict_try :: "env \<Rightarrow> request \<Rightarrow> call list \<times> (error + response)" where
  "predict_try env req =
     (case QuerySchema_parse (query req) of
        Inl e \<Rightarrow> ([], Inl e)
      | Inr validatedData \<Rightarrow>
          let rawData = [distance validatedData, ratio_to_median validatedData,
                         pin validatedData, chip validatedData, online validatedData]
          in case normalizeData env rawData of
               Inl e \<Rightarrow> ([], Inl e)
             | Inr normalizedData \<Rightarrow>
                 (case https_Agent of
                    Inl e \<Rightarrow> ([], Inl e)
                  | Inr agent \<Rightarrow> infer env normalizedData))"

text \<open>The handler with its \<open>catch\<close>, lines 172 to 178.\<close>

definition predict :: "env \<Rightarrow> request \<Rightarrow> call list \<times> outcome" where
  "predict env req =
     (case predict_try env req of
        (calls, Inr resp) \<Rightarrow> (calls, Sent resp)
      | (calls, Inl (ZodError issues)) \<Rightarrow>
          (calls, Sent (res_json 400
             (JObj [(''error'', JStr ''Invalid input parameters''), (''details'', JArr issues)])))
      | (calls, Inl e) \<Rightarrow> (calls, Next (Some e)))"

section \<open>The application\<close>

text \<open>
  The five registrations of the module, in their order: the error middleware (line 114),
  the documentation (line 120), and the routes \<open>/health\<close> (line 130), \<open>/predict\<close>
  (line 135) and \<open>/\<close> (line 182).
\<close>

datatype handler = ErrorMiddleware | SwaggerUi | Health | Predict | Root

datatype layer = Use string handler | Get string handler

definition app_stack :: "layer list" where
  "app_stack =
     [Use ''/'' ErrorMiddleware, Use ''/docs'' SwaggerUi,
      Get ''/health'' Health, Get ''/predict'' Predict, Get ''/'' Root]"

text \<open>The number of parameters of each handler function, which Express reads.\<close>

definition fn_length :: "handler \<Rightarrow> nat" where
  "fn_length h =
     (case h of ErrorMiddleware \<Rightarrow> 4 | SwaggerUi \<Rightarrow> 3 | Health \<Rightarrow> 2 | Predict \<Rightarrow> 3 | Root \<Rightarrow> 2)"

definition call_handler :: "env \<Rightarrow> handler \<Rightarrow> request \<Rightarrow> call list \<times> outcome" where
  "call_handler env h req =
     (case h of
        ErrorMiddleware \<Rightarrow>
          ([], Sent (res_json 500 (JObj [(''error'', JStr ''Internal server error'')])))
      | SwaggerUi \<Rightarrow> ([], swaggerUi env req)
      | Health \<Rightarrow> ([], Sent (res_json 200 (JObj [(''status'', JStr ''healthy'')])))
      | Predict \<Rightarrow> predict env req
      | Root \<Rightarrow>
          ([], Sent (res_json 200 (JObj [(''message'', JStr
             ''Welcome to Fraud Detection API. Visit /docs for Swagger documentation'')]))))"

text \<open>
  Express matches a path without regard to case and with an optional trailing slash; a
  route matches the whole path, a middleware mounted with \<open>app.use\<close> a prefix of it that
  ends at a slash or at the end.
\<close>

definition lower :: "char \<Rightarrow> char" where
  "lower c = (let n = of_char c :: nat in if 65 \<le> n \<and> n \<le> 90 then char_of (n + 32) else c)"

definition match_route :: "string \<Rightarrow> string \<Rightarrow> bool" where
  "match_route p url =
     (let u = map lower url
      in if p \<noteq> [] \<and> last p = CHR ''/'' then u = p \<or> u = butlast p
         else u = p \<or> u = p @ ''/'')"

definition match_use :: "string \<Rightarrow> string \<Rightarrow> bool" where
  "match_use p url =
     (let u = map lower url
      in p = ''/'' \<or> u = p \<or> take (Suc (length p)) u = p @ ''/'')"

text \<open>
  The router goes through the stack from the layer after the one that called \<open>next\<close>,
  in registration order. With no error pending it runs the matching request handlers
  (functions of at most three parameters) and the matching routes of the request's method,
  a \<open>get\<close> route serving GET and HEAD; with an error pending it skips routes and request
  handlers and runs the matching error handlers (functions of four parameters). A layer
  that is skipped is never returned to. At the end of the stack the final handler answers.
\<close>

definition layer_runs :: "layer \<Rightarrow> error option \<Rightarrow> request \<Rightarrow> bool" where
  "layer_runs l err req =
     (case l of
        Use p h \<Rightarrow>
          match_use p (path req)
            \<and> (case err of None \<Rightarrow> fn_length h \<le> 3 | Some e \<Rightarrow> fn_length h = 4)
      | Get p h \<Rightarrow>
          match_route p (path req) \<and> err = None
            \<and> (http_method req = GET \<or> http_method req = HEAD))"

definition handler_of :: "layer \<Rightarrow> handler" where
  "handler_of l = (case l of Use p h \<Rightarrow> h | Get p h \<Rightarrow> h)"

definition error_status :: "error \<Rightarrow> nat option" where
  "error_status e = (case e of RequestError st \<Rightarrow> st | _ \<Rightarrow> None)"

definition finalhandler :: "env \<Rightarrow> error option \<Rightarrow> request \<Rightarrow> response" where
  "finalhandler env err req =
     (case err of
        None \<Rightarrow> \<lparr>status = 404, body = HtmlBody (CannotRoute (http_method req) (path req))\<rparr>
      | Some e \<Rightarrow>
          let st = (case error_status e of
                      None \<Rightarrow> 500
                    | Some n \<Rightarrow> if 400 \<le> n \<and> n \<le> 599 then n else 500)
          in \<lparr>status = st,
              body = HtmlBody (if process_env env ''NODE_ENV'' = Some ''production''
                               then StatusText st else StackTrace e)\<rparr>)"

fun router :: "env \<Rightarrow> layer list \<Rightarrow> error option \<Rightarrow> request \<Rightarrow> call list \<times> response" where
  "router env [] err req = ([], finalhandler env err req)"
| "router env (l # stack) err req =
     (if layer_runs l err req
      then case call_handler env (handler_of l) req of
             (calls, Sent resp) \<Rightarrow> (calls, resp)
           | (calls, Next e) \<Rightarrow>
               (case router env stack e req of (calls', resp) \<Rightarrow> (calls @ calls', resp))
      else router env stack err req)"

definition app :: "env \<Rightarrow> request \<Rightarrow> call list \<times> response" where
  "app env req = router env app_stack None req"

section \<open>The process\<close>

text \<open>
  Loading the module either throws, and the process ends, or reaches \<open>app.listen\<close>.
  A listening process answers its requests one after the other from the same module
  state; no statement of the module assigns to \<open>scalerData\<close> or to a property of it.
\<close>

datatype process = Crashed error | Listening env

definition main :: "fs \<Rightarrow> (string \<Rightarrow> string option) \<Rightarrow> (string \<Rightarrow> jsval \<Rightarrow> error + jsval)
    \<Rightarrow> (request \<Rightarrow> outcome) \<Rightarrow> process" where
  "main files vars post docs =
     (case load_scalerData files of
        Inl e \<Rightarrow> Crashed e
      | Inr v \<Rightarrow>
          Listening \<lparr>scalerData = v, process_env = vars, axios_post = post, swaggerUi = docs\<rparr>)"

definition handle :: "env \<Rightarrow> request \<Rightarrow> env \<times> (call list \<times> response)" where
  "handle env req = (env, app env req)"

fun serve :: "env \<Rightarrow> request list \<Rightarrow> env \<times> (call list \<times> response) list" where
  "serve env [] = (env, [])"
| "serve env (req # reqs) =
     (case handle env req of
        (env', answer) \<Rightarrow>
          (case serve env' reqs of (env'', answers) \<Rightarrow> (env'', answer # answers)))"

section \<open>The scenario of the specification\<close>

text \<open>
  The scaler \<open>mean = [5, 1, 0.5, 0.5, 0.5]\<close>, \<open>scale = [2, 0.5, 0.5, 0.5, 0.5]\<close>, a
  backend that answers \<open>{"outputs": [{"data": [0.97]}]}\<close>, no environment variable set,
  and the request \<open>GET /predict?distance=10&ratio_to_median=1.2&pin=1&chip=1&online=0\<close>.
\<close>

definition scenario_scaler :: jsval where
  "scenario_scaler =
     JObj [(''mean'', JArr [JNum (Finite Pos 5), JNum (Finite Pos 1), JNum (Finite Pos (1 / 2)),
                            JNum (Finite Pos (1 / 2)), JNum (Finite Pos (1 / 2))]),
           (''scale'', JArr [JNum (Finite Pos 2), JNum (Finite Pos (1 / 2)),
                             JNum (Finite Pos (1 / 2)), JNum (Finite Pos (1 / 2)),
                             JNum (Finite Pos (1 / 2))])]"

definition scenario_backend :: "string \<Rightarrow> jsval \<Rightarrow> error + jsval" where
  "scenario_backend url payload =
     Inr (JObj [(''outputs'', JArr [JObj [(''data'', JArr [JNum (to_double Pos (97 / 100))])]])])"

definition documentation :: "request \<Rightarrow> outcome" where
  "documentation req = Sent \<lparr>status = 200, body = HtmlBody Documentation\<rparr>"

definition no_variables :: "string \<Rightarrow> string option" where
  "no_variables = Map.empty"

definition scenario_env :: env where
  "scenario_env =
     \<lparr>scalerData = scenario_scaler, process_env = no_variables,
      axios_post = scenario_backend, swaggerUi = documentation\<rparr>"

definition scenario_query :: query where
  "scenario_query =
     [''distance'' \<mapsto> QString ''10'', ''ratio_to_median'' \<mapsto> QString ''1.2'',
      ''pin'' \<mapsto> QString ''1'', ''chip'' \<mapsto> QString ''1'', ''online'' \<mapsto> QString ''0'']"

definition scenario_request :: request where
  "scenario_request = \<lparr>http_method = GET, path = ''/predict'', query = scenario_query\<rparr>"

definition health_request :: request where
  "health_request = \<lparr>http_method = GET, path = ''/health'', query = Map.empty\<rparr>"

text \<open>The scenario with the threshold set to the probability that the backend answers.\<close>

definition equal_threshold_env :: env where
  "equal_threshold_env = scenario_env\<lparr>process_env := [''FRAUD_THRESHOLD'' \<mapsto> ''0.97'']\<rparr>"

text \<open>Variations of the request: \<open>pin=2\<close>, \<open>pin=\<close> and \<open>distance=abc\<close>.\<close>

definition pin_two_request :: request where
  "pin_two_request = scenario_request\<lparr>query := scenario_query(''pin'' \<mapsto> QString ''2'')\<rparr>"

definition pin_empty_request :: request where
  "pin_empty_request = scenario_request\<lparr>query := scenario_query(''pin'' \<mapsto> QString [])\<rparr>"

definition distance_abc_request :: request where
  "distance_abc_request =
     scenario_request\<lparr>query := scenario_query(''distance'' \<mapsto> QString ''abc'')\<rparr>"

text \<open>
  A scaler artifact with one mean and one scale, which is zero, and the file system,
  environment variables and collaborators of a process started on it.
\<close>

definition short_scaler :: jsval where
  "short_scaler =
     JObj [(''mean'', JArr [JNum (Finite Pos 1)]), (''scale'', JArr [JNum (Finite Pos 0)])]"

definition short_scaler_files :: fs where
  "short_scaler_files = [''src/scaler.json'' \<mapsto> Denotes short_scaler]"

definition scenario_files :: fs where
  "scenario_files = [''src/scaler.json'' \<mapsto> Denotes scenario_scaler]"

definition malformed_files :: fs where
  "malformed_files = [''src/scaler.json'' \<mapsto> Malformed]"

definition no_files :: fs where
  "no_files = Map.empty"

section \<open>The specification's round trip\<close>

text \<open>
  The specification's \<open>denormalize(y)[i] = y[i] * scale[i] + mean[i]\<close>, with the
  language's arithmetic; the program has no such function. A rational is representable
  when rounding it to binary64 leaves it as it is; a number is a finite double when it is
  finite with a representable magnitude, and its value is then its magnitude with its
  sign.
\<close>

definition denormalize :: "number list \<Rightarrow> number list \<Rightarrow> number list \<Rightarrow> number list" where
  "denormalize mean scale y =
     map (\<lambda>i. js_add (js_mul (y ! i) (scale ! i)) (mean ! i)) [0..<length y]"

definition representable :: "rat \<Rightarrow> bool" where
  "representable r \<longleftrightarrow> to_double Pos \<bar>r\<bar> = Finite Pos \<bar>r\<bar>"

definition finite_double :: "number \<Rightarrow> bool" where
  "finite_double x \<longleftrightarrow> (case x of Finite s a \<Rightarrow> 0 \<le> a \<and> representable a | _ \<Rightarrow> False)"

definition value_of :: "number \<Rightarrow> rat" where
  "value_of x = (case x of Finite s a \<Rightarrow> signed s a | _ \<Rightarrow> 0)"

text \<open>
  A scaler that doubles, with means of zero and scales of two, and a scaler that shifts,
  with means of \<open>2\<^sup>5\<^sup>3\<close> and scales of one; and the vectors of five ones, of five
  times \<open>0.4\<close> and of five times \<open>2\<^sup>1\<^sup>0\<^sup>2\<^sup>3\<close>.
\<close>

definition doubling_scaler :: jsval where
  "doubling_scaler =
     JObj [(''mean'', JArr [JNum (Finite Pos 0), JNum (Finite Pos 0), JNum (Finite Pos 0),
                            JNum (Finite Pos 0), JNum (Finite Pos 0)]),
           (''scale'', JArr [JNum (Finite Pos 2), JNum (Finite Pos 2), JNum (Finite Pos 2),
                             JNum (Finite Pos 2), JNum (Finite Pos 2)])]"

definition doubling_env :: env where
  "doubling_env = scenario_env\<lparr>scalerData := doubling_scaler\<rparr>"

definition offset_scaler :: jsval where
  "offset_scaler =
     JObj [(''mean'', JArr [JNum (Finite Pos (2 ^ 53)), JNum (Finite Pos (2 ^ 53)),
                            JNum (Finite Pos (2 ^ 53)), JNum (Finite Pos (2 ^ 53)),
                            JNum (Finite Pos (2 ^ 53))]),
           (''scale'', JArr [JNum (Finite Pos 1), JNum (Finite Pos 1), JNum (Finite Pos 1),
                             JNum (Finite Pos 1), JNum (Finite Pos 1)])]"

definition offset_env :: env where
  "offset_env = scenario_env\<lparr>scalerData := offset_scaler\<rparr>"

definition offsets :: "number list" where
  "offsets = [Finite Pos (2 ^ 53), Finite Pos (2 ^ 53), Finite Pos (2 ^ 53),
              Finite Pos (2 ^ 53), Finite Pos (2 ^ 53)]"

definition ones :: "number list" where
  "ones = [Finite Pos 1, Finite Pos 1, Finite Pos 1, Finite Pos 1, Finite Pos 1]"

definition zeros :: "number list" where
  "zeros = [Finite Pos 0, Finite Pos 0, Finite Pos 0, Finite Pos 0, Finite Pos 0]"

definition twos :: "number list" where
  "twos = [Finite Pos 2, Finite Pos 2, Finite Pos 2, Finite Pos 2, Finite Pos 2]"

definition two_fifths :: "number list" where
  "two_fifths =
     [Finite Pos (3602879701896397 / 2 ^ 53), Finite Pos (3602879701896397 / 2 ^ 53),
      Finite Pos (3602879701896397 / 2 ^ 53), Finite Pos (3602879701896397 / 2 ^ 53),
      Finite Pos (3602879701896397 / 2 ^ 53)]"

definition huge :: "number list" where
  "huge = [Finite Pos (2 ^ 1023), Finite Pos (2 ^ 1023), Finite Pos (2 ^ 1023),
           Finite Pos (2 ^ 1023), Finite Pos (2 ^ 1023)]"

definition scenario_mean_list :: "number list" where
  "scenario_mean_list =
     [Finite Pos 5, Finite Pos 1, Finite Pos (1 / 2), Finite Pos (1 / 2), Finite Pos (1 / 2)]"

definition scenario_scale_list :: "number list" where
  "scenario_scale_list =
     [Finite Pos 2, Finite Pos (1 / 2), Finite Pos (1 / 2), Finite Pos (1 / 2),
      Finite Pos (1 / 2)]"

section \<open>Evaluating the rounding\<close>

text \<open>
  \<open>ilog2\<close> is the exponent of the binade, so the rounding of a magnitude can be
  computed from any exponent that is shown to bracket it.
\<close>

lemma of_int_bitlen_bounds:
  assumes "0 < n"
  shows "(2::rat) powi (bitlen n - 1) \<le> of_int n" and "of_int n < (2::rat) powi (bitlen n)"
proof -
  have b: "2 ^ nat (bitlen n - 1) \<le> n" "n < 2 ^ nat (bitlen n)"
    using bitlen_bounds [OF assms] by auto
  have p: "1 \<le> bitlen n" using assms by (simp add: bitlen_alt_def)
  have "(2::rat) powi (bitlen n - 1) = of_int (2 ^ nat (bitlen n - 1))"
    using p by (simp add: power_int_def)
  also have "\<dots> \<le> of_int n" using b(1) by (simp only: of_int_le_iff)
  finally show "(2::rat) powi (bitlen n - 1) \<le> of_int n" .
  have "(of_int n :: rat) < of_int (2 ^ nat (bitlen n))"
    using b(2) by (simp only: of_int_less_iff)
  also have "\<dots> = 2 powi (bitlen n)" using p by (simp add: power_int_def)
  finally show "of_int n < (2::rat) powi (bitlen n)" .
qed

lemma ilog2_bounds:
  assumes "0 < a"
  shows "2 powi (ilog2 a) \<le> a \<and> a < 2 powi (ilog2 a + 1)"
proof -
  obtain n d where q: "quotient_of a = (n, d)" by (cases "quotient_of a")
  have d: "0 < d" using q quotient_of_denom_pos by blast
  have a: "a = of_int n / of_int d" using q by (simp add: quotient_of_div)
  have n: "0 < n" using assms a d by (simp add: zero_less_divide_iff)
  define k where "k = bitlen n - bitlen d"
  note rn = of_int_bitlen_bounds [OF n] and rd = of_int_bitlen_bounds [OF d]
  have dpos: "(0::rat) < of_int d" using d by simp
  have lo: "2 powi (k - 1) < a"
  proof -
    have "(2::rat) powi (k - 1) * of_int d < 2 powi (k - 1) * 2 powi (bitlen d)"
      using rd(2) by (simp add: mult_strict_left_mono)
    also have "\<dots> = 2 powi (bitlen n - 1)"
      by (simp add: k_def power_int_add [symmetric])
    also have "\<dots> \<le> of_int n" by (rule rn(1))
    finally show ?thesis using dpos by (simp add: a pos_less_divide_eq)
  qed
  have hi: "a < 2 powi (k + 1)"
  proof -
    have "of_int n < (2::rat) powi (bitlen n)" by (rule rn(2))
    also have "\<dots> = 2 powi (k + 1) * 2 powi (bitlen d - 1)"
      by (simp add: k_def power_int_add [symmetric])
    also have "\<dots> \<le> 2 powi (k + 1) * of_int d"
      using rd(1) by (simp add: mult_left_mono)
    finally show ?thesis using dpos by (simp add: a pos_divide_less_eq)
  qed
  have il: "ilog2 a = (if a < 2 powi k then k - 1 else k)"
    by (simp add: ilog2_def q k_def)
  show ?thesis
  proof (cases "a < 2 powi k")
    case True
    then show ?thesis using lo il by simp
  next
    case False
    then show ?thesis using hi il by simp
  qed
qed

lemma ilog2_unique:
  assumes "0 < a" "2 powi k \<le> a" "a < 2 powi (k + 1)"
  shows "ilog2 a = k"
proof -
  have b: "2 powi (ilog2 a) \<le> a" "a < 2 powi (ilog2 a + 1)"
    using ilog2_bounds [OF assms(1)] by auto
  have "(2::rat) powi (ilog2 a) < 2 powi (k + 1)" using b(1) assms(3) by simp
  then have 1: "ilog2 a < k + 1"
    by (meson not_less power_int_increasing one_le_numeral)
  have "(2::rat) powi k < 2 powi (ilog2 a + 1)" using b(2) assms(2) by simp
  then have 2: "k < ilog2 a + 1"
    by (meson not_less power_int_increasing one_le_numeral)
  show ?thesis using 1 2 by simp
qed

lemma to_double_normal:
  assumes "2 powi e \<le> a" "a < 2 powi (e + 1)" "- 1022 \<le> e"
  shows "to_double s a =
    (let r = of_int (round_half_even (a / 2 powi (e - 52))) * 2 powi (e - 52)
     in if 2 ^ 1024 \<le> r then Infinity s else Finite s r)"
proof -
  have pos: "0 < a"
    using assms(1) by (meson less_le_trans zero_less_numeral zero_less_power_int)
  have "ilog2 a = e" using ilog2_unique [OF pos assms(1,2)] .
  then show ?thesis using pos assms(3) by (simp add: to_double_def Let_def max_def)
qed

lemma to_double_subnormal:
  assumes "0 < a" "a < 2 powi (- 1022)"
  shows "to_double s a =
    (let r = of_int (round_half_even (a / 2 powi (- 1074))) * 2 powi (- 1074)
     in if 2 ^ 1024 \<le> r then Infinity s else Finite s r)"
proof -
  have b: "2 powi (ilog2 a) \<le> a" using ilog2_bounds [OF assms(1)] by auto
  have "(2::rat) powi (ilog2 a) < 2 powi (- 1022)" using b assms(2) by simp
  then have "ilog2 a < - 1022"
    by (meson not_less power_int_increasing one_le_numeral)
  then show ?thesis using assms(1) by (simp add: to_double_def Let_def max_def)
qed

text \<open>
  The rounded magnitude is a multiple of the unit in the last place of the binade, at most
  half a unit away from the exact one.
\<close>

lemma round_half_even_near: "\<bar>of_int (round_half_even x) - x\<bar> \<le> 1 / 2"
proof -
  have "of_int \<lfloor>x\<rfloor> \<le> x" "x < of_int \<lfloor>x\<rfloor> + 1" by linarith+
  then show ?thesis
    unfolding round_half_even_def Let_def by (auto simp: abs_if) linarith+
qed

lemma to_double_nearest:
  assumes "2 powi e \<le> a" "a < 2 powi (e + 1)" "- 1022 \<le> e" "to_double s a = Finite t r"
  shows "t = s \<and> \<bar>r - a\<bar> \<le> 2 powi (e - 53) \<and> (\<exists>m. r = of_int m * 2 powi (e - 52))"
proof -
  let ?q = "(2::rat) powi (e - 52)"
  let ?m = "round_half_even (a / ?q)"
  have q: "0 < ?q" by simp
  have r: "t = s" "r = of_int ?m * ?q"
    using assms(4) unfolding to_double_normal [OF assms(1,2,3)]
    by (auto simp: Let_def split: if_splits)
  have "\<bar>of_int ?m - a / ?q\<bar> \<le> 1 / 2" by (rule round_half_even_near)
  then have "\<bar>of_int ?m - a / ?q\<bar> * ?q \<le> 1 / 2 * ?q"
    using q by (simp add: mult_right_mono)
  moreover have "\<bar>of_int ?m - a / ?q\<bar> * ?q = \<bar>of_int ?m * ?q - a\<bar>"
  proof -
    have "\<bar>of_int ?m - a / ?q\<bar> * ?q = \<bar>(of_int ?m - a / ?q) * ?q\<bar>"
      using q by (simp add: abs_mult)
    also have "(of_int ?m - a / ?q) * ?q = of_int ?m * ?q - a"
      using q by (simp add: field_simps)
    finally show ?thesis .
  qed
  moreover have "1 / 2 * ?q = 2 powi (e - 53)"
  proof -
    have "(2::rat) powi (e - 52) = 2 powi (e - 53 + 1)" by simp
    also have "\<dots> = 2 powi (e - 53) * 2" by (subst power_int_add) simp_all
    finally show ?thesis by simp
  qed
  ultimately show ?thesis using r by auto
qed

lemma floor_rat_numeral:
  "\<lfloor>(numeral a / numeral b :: rat)\<rfloor> = numeral a div numeral b"
  using floor_divide_of_int_eq [of "numeral a" "numeral b", where ?'a = rat] by simp

lemmas rounding = round_half_even_def Let_def floor_rat_numeral

lemmas parsing = StringToNumber_def trim_def StrWhiteSpaceChar_def NonDecimalIntegerLiteral_def
  StrDecimalLiteral_def StrUnsignedDecimalLiteral_def is_decimal_digit_def digit_value_def
  ExponentPart_def digits_value_def SignedInteger_def digits_in_def Let_def

text \<open>
  The arithmetic on well-known values: \<open>0.1 + 0.2\<close> is \<open>0.30000000000000004\<close>; the
  integer \<open>2\<^sup>5\<^sup>3 + 1\<close> is a tie and rounds to the even \<open>2\<^sup>5\<^sup>3\<close>; \<open>5e-324\<close> is the
  least positive number and \<open>2e-324\<close> rounds to zero; \<open>1e400\<close> overflows.
\<close>

lemma StringToNumber_0_1: "StringToNumber ''0.1'' = Finite Pos (3602879701896397 / 2 ^ 55)"
  by (simp add: parsing to_double_normal [where e = "- 4"] rounding)

lemma StringToNumber_0_2: "StringToNumber ''0.2'' = Finite Pos (3602879701896397 / 2 ^ 54)"
  by (simp add: parsing to_double_normal [where e = "- 3"] rounding)

lemma StringToNumber_0_3: "StringToNumber ''0.3'' = Finite Pos (5404319552844595 / 2 ^ 54)"
  by (simp add: parsing to_double_normal [where e = "- 2"] rounding)

lemma StringToNumber_0_30000000000000004:
  "StringToNumber ''0.30000000000000004'' = Finite Pos (5404319552844596 / 2 ^ 54)"
  by (simp add: parsing to_double_normal [where e = "- 2"] rounding)

lemma one_tenth_plus_two_tenths:
  "js_add (StringToNumber ''0.1'') (StringToNumber ''0.2'') =
     StringToNumber ''0.30000000000000004''
   \<and> js_add (StringToNumber ''0.1'') (StringToNumber ''0.2'') \<noteq> StringToNumber ''0.3''"
  by (simp add: StringToNumber_0_1 StringToNumber_0_2 StringToNumber_0_3
      StringToNumber_0_30000000000000004 signed_def sign_of_def
      to_double_normal [where e = "- 2"] rounding)

lemma StringToNumber_tie: "StringToNumber ''9007199254740993'' = Finite Pos (2 ^ 53)"
  by (simp add: parsing to_double_normal [where e = 53] rounding)

lemma StringToNumber_least: "StringToNumber ''5e-324'' = Finite Pos (2 powi (- 1074))"
  by (simp add: parsing to_double_subnormal rounding)

lemma StringToNumber_underflow: "StringToNumber ''2e-324'' = Finite Pos 0"
  by (simp add: parsing to_double_subnormal rounding)

lemma StringToNumber_overflow: "StringToNumber ''1e400'' = Infinity Pos"
  by (simp add: parsing to_double_normal [where e = 1328] rounding)

subsection \<open>Rounding is idempotent\<close>

lemma round_half_even_of_int: "round_half_even (of_int m) = m"
  by (simp add: round_half_even_def)

lemma round_half_even_lower:
  assumes "of_int k \<le> x"
  shows "k \<le> round_half_even x"
proof -
  have "k \<le> \<lfloor>x\<rfloor>" using assms by (simp add: le_floor_iff)
  then show ?thesis unfolding round_half_even_def Let_def by auto
qed

lemma round_half_even_upper:
  assumes "x \<le> of_int k"
  shows "round_half_even x \<le> k"
proof (cases "x = of_int k")
  case True
  then show ?thesis by (simp add: round_half_even_of_int)
next
  case False
  then have "x < of_int k" using assms by simp
  then have "\<lfloor>x\<rfloor> < k" by (simp add: floor_less_iff)
  then show ?thesis unfolding round_half_even_def Let_def by auto
qed

lemma powi_shift: "(2::rat) powi (e + int n) = 2 ^ n * 2 powi e"
proof -
  have "(2::rat) powi (e + int n) = 2 powi e * 2 powi (int n)"
    by (subst power_int_add) simp_all
  then show ?thesis by simp
qed

lemma powi_52: "(2::rat) powi e = 2 ^ 52 * 2 powi (e - 52)"
proof -
  have "(2::rat) powi e = 2 powi ((e - 52) + int 52)"
    by (rule arg_cong [where f = "\<lambda>k. 2 powi k"]) simp
  then show ?thesis by (simp only: powi_shift)
qed

lemma powi_53: "(2::rat) powi (e + 1) = 2 ^ 53 * 2 powi (e - 52)"
proof -
  have "(2::rat) powi (e + 1) = 2 powi ((e - 52) + int 53)"
    by (rule arg_cong [where f = "\<lambda>k. 2 powi k"]) simp
  then show ?thesis by (simp only: powi_shift)
qed

lemma multiple_in_binade_fixed:
  assumes lo: "2 powi e \<le> r" and hi: "r < 2 powi (e + 1)" and e: "- 1022 \<le> e"
    and r: "r = of_int m * 2 powi (e - 52)" and fin: "\<not> 2 ^ 1024 \<le> r"
  shows "to_double s r = Finite s r"
proof -
  define q :: rat where "q = 2 powi (e - 52)"
  have q: "0 < q" by (simp add: q_def)
  have div: "r / q = of_int m" using r q by (simp add: q_def)
  have "to_double s r =
      (let r' = of_int (round_half_even (r / q)) * q
       in if 2 ^ 1024 \<le> r' then Infinity s else Finite s r')"
    unfolding q_def by (rule to_double_normal [OF lo hi e])
  also have "\<dots> = Finite s r"
    unfolding div round_half_even_of_int Let_def using fin r by (simp add: q_def)
  finally show ?thesis .
qed

lemma multiple_subnormal_fixed:
  assumes pos: "0 < r" and hi: "r < 2 powi (- 1022)" and r: "r = of_int m * 2 powi (- 1074)"
  shows "to_double s r = Finite s r"
proof -
  define q :: rat where "q = 2 powi (- 1074)"
  have q: "0 < q" by (simp add: q_def)
  have div: "r / q = of_int m" using r q by (simp add: q_def)
  have "r < 2 powi 1024"
    using hi power_int_strict_increasing [of "- 1022" 1024 "2::rat"] by simp
  then have fin: "\<not> 2 ^ 1024 \<le> r" by simp
  have "to_double s r =
      (let r' = of_int (round_half_even (r / q)) * q
       in if 2 ^ 1024 \<le> r' then Infinity s else Finite s r')"
    unfolding q_def by (rule to_double_subnormal [OF pos hi])
  also have "\<dots> = Finite s r"
    unfolding div round_half_even_of_int Let_def using fin r by (simp add: q_def)
  finally show ?thesis .
qed

text \<open>A value that rounding returns is a binary64 value: rounding it again leaves it
  as it is, so the results of the arithmetic stay within the format.\<close>

lemma to_double_fixed:
  assumes a: "0 \<le> a" and res: "to_double s a = Finite t r"
  shows "t = s \<and> 0 \<le> r \<and> to_double s r = Finite s r"
proof (cases "a = 0")
  case True
  then show ?thesis using res by (simp add: to_double_def)
next
  case False
  then have pos: "0 < a" using a by simp
  define e where "e = max (ilog2 a) (- 1022)"
  define q :: rat where "q = 2 powi (e - 52)"
  define m where "m = round_half_even (a / q)"
  have q: "0 < q" by (simp add: q_def)
  have e: "- 1022 \<le> e" by (simp add: e_def)
  have unfold: "to_double s a = (if 2 ^ 1024 \<le> of_int m * q then Infinity s
      else Finite s (of_int m * q))"
    using False by (simp add: to_double_def Let_def e_def q_def m_def)
  have r: "t = s" "r = of_int m * q" and fin: "\<not> 2 ^ 1024 \<le> r"
    using res unfolding unfold by (auto split: if_splits)
  have b: "2 powi (ilog2 a) \<le> a" "a < 2 powi (ilog2 a + 1)"
    using ilog2_bounds [OF pos] by auto
  have "a < 2 powi (e + 1)"
  proof -
    have "(2::rat) powi (ilog2 a + 1) \<le> 2 powi (e + 1)"
      by (rule power_int_increasing) (simp_all add: e_def)
    then show ?thesis using b(2) by simp
  qed
  also have "(2::rat) powi (e + 1) = 2 ^ 53 * q"
    unfolding q_def by (rule powi_53)
  finally have "a / q < 2 ^ 53" using q by (simp add: pos_divide_less_eq)
  then have "a / q \<le> of_int (2 ^ 53)" by simp
  then have m_hi: "m \<le> 2 ^ 53" unfolding m_def by (rule round_half_even_upper)
  have "of_int 0 \<le> a / q" using pos q by simp
  then have m_lo: "0 \<le> m" unfolding m_def by (rule round_half_even_lower)
  have rpos: "0 \<le> r" using r(2) m_lo q by simp
  have "to_double s r = Finite s r"
  proof (cases "m = 0")
    case True
    then show ?thesis using r(2) by (simp add: to_double_def)
  next
    case m0: False
    then have mpos: "0 < m" using m_lo by simp
    have rgt: "0 < r" using r(2) mpos q by simp
    show ?thesis
    proof (cases "- 1022 \<le> ilog2 a")
      case True
      then have ee: "e = ilog2 a" by (simp add: e_def)
      have "(2::rat) powi e = 2 ^ 52 * q"
        unfolding q_def by (rule powi_52)
      then have "2 ^ 52 * q \<le> a" using b(1) by (simp only: ee)
      then have "2 ^ 52 \<le> a / q" using q by (simp add: pos_le_divide_eq)
      then have "of_int (2 ^ 52) \<le> a / q" by simp
      then have m52: "2 ^ 52 \<le> m" unfolding m_def by (rule round_half_even_lower)
      show ?thesis
      proof (cases "m = 2 ^ 53")
        case True
        have "of_int m = (2::rat) ^ 53" using True by simp
        then have "r = 2 ^ 53 * q" using r(2) by simp
        then have r1: "r = 2 powi (e + 1)" by (simp only: q_def powi_53)
        have "r = 2 ^ 52 * 2 powi (e + 1 - 52)"
          unfolding r1 by (rule powi_52)
        then have "r = of_int (2 ^ 52) * 2 powi (e + 1 - 52)" by simp
        moreover have "2 powi (e + 1) \<le> r" using r1 by simp
        moreover have "r < 2 powi (e + 1 + 1)"
          unfolding r1 by (rule power_int_strict_increasing) simp_all
        moreover have "- 1022 \<le> e + 1" using e by simp
        ultimately show ?thesis using fin multiple_in_binade_fixed by blast
      next
        case False
        then have m53: "m < 2 ^ 53" using m_hi by simp
        have lo: "2 powi e \<le> r"
        proof -
          have "(2::rat) ^ 52 \<le> of_int m"
            using m52 by (metis of_int_le_iff of_int_numeral of_int_power)
          then have "2 ^ 52 * q \<le> of_int m * q" using q by (simp add: mult_right_mono)
          then show ?thesis by (simp only: powi_52 [of e] q_def r(2))
        qed
        have hi: "r < 2 powi (e + 1)"
        proof -
          have "of_int m < (2::rat) ^ 53"
            using m53 by (metis of_int_less_iff of_int_numeral of_int_power)
          then have "of_int m * q < 2 ^ 53 * q" using q by (simp add: mult_strict_right_mono)
          then show ?thesis by (simp only: powi_53 [of e] q_def r(2))
        qed
        show ?thesis
          using multiple_in_binade_fixed [OF lo hi e _ fin] r(2) by (simp add: q_def)
      qed
    next
      case False
      then have ee: "e = - 1022" by (simp add: e_def)
      have "a < 2 powi (- 1022)"
      proof -
        have "(2::rat) powi (ilog2 a + 1) \<le> 2 powi (- 1022)"
          by (rule power_int_increasing) (use False in simp_all)
        then show ?thesis using b(2) by simp
      qed
      also have "(2::rat) powi (- 1022) = 2 ^ 52 * q"
        using powi_52 [of "- 1022"] by (simp add: q_def ee)
      finally have "a / q < 2 ^ 52" using q by (simp add: pos_divide_less_eq)
      then have "a / q \<le> of_int (2 ^ 52)" by simp
      then have m52: "m \<le> 2 ^ 52" unfolding m_def by (rule round_half_even_upper)
      have rq: "r = of_int m * 2 powi (- 1074)" using r(2) by (simp add: q_def ee)
      show ?thesis
      proof (cases "m = 2 ^ 52")
        case True
        have r1: "r = 2 powi (- 1022)"
          using rq True powi_52 [of "- 1022"] by simp
        have "r = of_int m * 2 powi (- 1022 - 52)" using rq by simp
        moreover have "2 powi (- 1022) \<le> r" using r1 by simp
        moreover have "r < 2 powi (- 1022 + 1)"
          unfolding r1 by (rule power_int_strict_increasing) simp_all
        ultimately show ?thesis using fin multiple_in_binade_fixed [of "- 1022" r m s] by simp
      next
        case False
        then have "m < 2 ^ 52" using m52 by simp
        then have "of_int m < (2::rat) ^ 52"
          by (metis of_int_less_iff of_int_numeral of_int_power)
        then have "of_int m * (2::rat) powi (- 1074) < 2 ^ 52 * 2 powi (- 1074)"
          by (simp add: mult_strict_right_mono)
        then have "r < 2 powi (- 1022)"
          using rq powi_52 [of "- 1022"] by simp
        then show ?thesis using multiple_subnormal_fixed [OF rgt _ rq] by simp
      qed
    qed
  qed
  then show ?thesis using r(1) rpos by simp
qed


section \<open>The numbers of the scenario\<close>

text \<open>The numbers that the strings of the scenario and of its variations denote.\<close>

lemma StringToNumber_empty: "StringToNumber [] = Finite Pos 0"
  by (simp add: parsing)

lemma StringToNumber_0: "StringToNumber ''0'' = Finite Pos 0"
  by (simp add: parsing to_double_def)

lemma StringToNumber_1: "StringToNumber ''1'' = Finite Pos 1"
  by (simp add: parsing to_double_normal [where e = 0] rounding)

lemma StringToNumber_2: "StringToNumber ''2'' = Finite Pos 2"
  by (simp add: parsing to_double_normal [where e = 1] rounding)

lemma StringToNumber_10: "StringToNumber ''10'' = Finite Pos 10"
  by (simp add: parsing to_double_normal [where e = 3] rounding)

lemma StringToNumber_1_2: "StringToNumber ''1.2'' = Finite Pos (5404319552844595 / 2 ^ 52)"
  by (simp add: parsing to_double_normal [where e = 0] rounding)

lemma StringToNumber_abc: "StringToNumber ''abc'' = NaN"
  by (simp add: parsing)

lemma StringToNumber_2_5: "StringToNumber ''2.5'' = Finite Pos (5 / 2)"
  by (simp add: parsing to_double_normal [where e = 1] rounding)

lemma StringToNumber_0_4: "StringToNumber ''0.4'' = Finite Pos (3602879701896397 / 2 ^ 53)"
  by (simp add: parsing to_double_normal [where e = "- 2"] rounding)

lemma StringToNumber_0_39:
  "StringToNumber ''0.3999999999999999'' = Finite Pos (3602879701896396 / 2 ^ 53)"
  by (simp add: parsing to_double_normal [where e = "- 2"] rounding)

lemma StringToNumber_minus_1: "StringToNumber ''-1'' = Finite Neg 1"
  by (simp add: parsing to_double_normal [where e = 0] rounding)

lemma zero_or_one_0: "zero_or_one (Finite Pos 0)"
  by (simp add: zero_or_one_def signed_def)

lemma zero_or_one_1: "zero_or_one (Finite Pos 1)"
  by (simp add: zero_or_one_def signed_def)

lemma not_zero_or_one_2: "\<not> zero_or_one (Finite Pos 2)"
  by (simp add: zero_or_one_def signed_def)

section \<open>Rounding errors\<close>

text \<open>
  An operation on finite numbers either overflows, its exact result being beyond
  \<open>2\<^sup>1\<^sup>0\<^sup>2\<^sup>3\<close>, or returns a binary64 value whose distance from the exact result \<open>z\<close> is
  at most \<open>\<bar>z\<bar> / 2\<^sup>5\<^sup>3 + 2\<^sup>-\<^sup>1\<^sup>0\<^sup>7\<^sup>5\<close>.
\<close>

lemma signed_abs: "0 \<le> a \<Longrightarrow> \<bar>signed s a\<bar> = a"
  by (cases s) (simp_all add: signed_def)

lemma signed_sign_of: "signed (sign_of r) \<bar>r\<bar> = r"
  by (simp add: signed_def sign_of_def)

lemma signed_mult: "signed s a * signed t b = signed (xor_sign s t) (a * b)"
  by (cases s; cases t) (simp_all add: signed_def xor_sign_def)

lemma finite_doubleE:
  assumes "finite_double x"
  obtains s a where "x = Finite s a" "0 \<le> a" "representable a"
  using assms by (cases x) (auto simp: finite_double_def)

lemma representable_0: "representable 0"
  by (simp add: representable_def to_double_def)

lemma to_double_cases:
  assumes a: "0 \<le> a"
  obtains (overflow) "to_double s a = Infinity s" "2 ^ 1023 < a"
  | (finite) r where "to_double s a = Finite s r" "0 \<le> r" "representable r"
      "\<bar>r - a\<bar> \<le> 1 / 2 ^ 53 * a + 1 / 2 ^ 1075"
proof (cases "a = 0")
  case True
  have "to_double s a = Finite s 0" using True by (simp add: to_double_def)
  then show ?thesis using finite [of 0] representable_0 True by simp
next
  case False
  then have pos: "0 < a" using a by simp
  define e where "e = max (ilog2 a) (- 1022)"
  define q :: rat where "q = 2 powi (e - 52)"
  define m where "m = round_half_even (a / q)"
  define r where "r = of_int m * q"
  have q: "0 < q" by (simp add: q_def)
  have unfold: "to_double t a = (if 2 ^ 1024 \<le> r then Infinity t else Finite t r)" for t
    using False by (simp add: to_double_def Let_def e_def q_def m_def r_def)
  have "of_int 0 \<le> a / q" using pos q by simp
  then have "0 \<le> m" unfolding m_def by (rule round_half_even_lower)
  then have r0: "0 \<le> r" using q by (simp add: r_def)
  have near: "\<bar>r - a\<bar> \<le> q / 2"
  proof -
    have "\<bar>of_int m - a / q\<bar> \<le> 1 / 2" unfolding m_def by (rule round_half_even_near)
    then have "\<bar>of_int m - a / q\<bar> * q \<le> 1 / 2 * q"
      using q by (simp add: mult_right_mono)
    moreover have "\<bar>of_int m - a / q\<bar> * q = \<bar>(of_int m - a / q) * q\<bar>"
      using q by (simp add: abs_mult)
    moreover have "(of_int m - a / q) * q = r - a"
      using q by (simp add: r_def field_simps)
    ultimately show ?thesis by simp
  qed
  have half: "q / 2 \<le> 1 / 2 ^ 53 * a + 1 / 2 ^ 1075"
  proof (cases "- 1022 \<le> ilog2 a")
    case True
    then have "e = ilog2 a" by (simp add: e_def)
    then have "2 powi e \<le> a" using ilog2_bounds [OF pos] by simp
    moreover have "(2::rat) powi e = 2 ^ 52 * q" unfolding q_def by (rule powi_52)
    ultimately have "2 ^ 52 * q \<le> a" by simp
    then show ?thesis by simp
  next
    case False
    then have "e = - 1022" by (simp add: e_def)
    then have "q = 2 powi (- 1074)" by (simp add: q_def)
    then have "q / 2 = 1 / 2 ^ 1075" by (simp add: power_int_minus divide_simps)
    then show ?thesis using pos by simp
  qed
  show ?thesis
  proof (cases "2 ^ 1024 \<le> r")
    case True
    have "r \<le> a + (1 / 2 ^ 53 * a + 1 / 2 ^ 1075)" using near half by linarith
    then have "2 ^ 1023 < a" using True by simp
    then show ?thesis using overflow unfold True by simp
  next
    case False
    have "to_double Pos a = Finite Pos r" using unfold False by simp
    then have "to_double Pos r = Finite Pos r" using to_double_fixed [OF a] by blast
    then have "representable r" using r0 by (simp add: representable_def)
    then show ?thesis using finite [of r] unfold False r0 near half by simp
  qed
qed

lemma signed_diff: "\<bar>signed w c - signed w d\<bar> = \<bar>c - d\<bar>"
  by (cases w) (simp_all add: signed_def)

lemma signed_divide: "0 < b \<Longrightarrow> signed s a / signed t b = signed (xor_sign s t) (a / b)"
  by (cases s; cases t) (simp_all add: signed_def xor_sign_def)

lemma js_mul_cases:
  assumes "0 \<le> a" "0 \<le> b"
  obtains (overflow) w where "js_mul (Finite s a) (Finite t b) = Infinity w"
      "2 ^ 1023 < \<bar>signed s a * signed t b\<bar>"
  | (finite) w c where "js_mul (Finite s a) (Finite t b) = Finite w c" "0 \<le> c"
      "representable c"
      "\<bar>signed w c - signed s a * signed t b\<bar>
         \<le> 1 / 2 ^ 53 * \<bar>signed s a * signed t b\<bar> + 1 / 2 ^ 1075"
proof -
  have ab: "0 \<le> a * b" using assms by simp
  have z: "\<bar>signed s a * signed t b\<bar> = a * b"
    using ab by (simp add: signed_mult signed_abs)
  show ?thesis
  proof (rule to_double_cases [OF ab, where s = "xor_sign s t"])
    assume "to_double (xor_sign s t) (a * b) = Infinity (xor_sign s t)" "2 ^ 1023 < a * b"
    then show ?thesis using that(1) [of "xor_sign s t"] z by simp
  next
    fix r
    assume fin: "to_double (xor_sign s t) (a * b) = Finite (xor_sign s t) r" "0 \<le> r"
      "representable r" "\<bar>r - a * b\<bar> \<le> 1 / 2 ^ 53 * (a * b) + 1 / 2 ^ 1075"
    have "\<bar>signed (xor_sign s t) r - signed s a * signed t b\<bar> = \<bar>r - a * b\<bar>"
      by (simp add: signed_mult signed_diff)
    then show ?thesis using that(2) [of "xor_sign s t" r] fin z by simp
  qed
qed

lemma js_div_cases:
  assumes "0 \<le> a" "0 < b"
  obtains (overflow) w where "js_div (Finite s a) (Finite t b) = Infinity w"
      "2 ^ 1023 < \<bar>signed s a / signed t b\<bar>"
  | (finite) w c where "js_div (Finite s a) (Finite t b) = Finite w c" "0 \<le> c"
      "representable c"
      "\<bar>signed w c - signed s a / signed t b\<bar>
         \<le> 1 / 2 ^ 53 * \<bar>signed s a / signed t b\<bar> + 1 / 2 ^ 1075"
proof -
  have ab: "0 \<le> a / b" using assms by simp
  have z: "\<bar>signed s a / signed t b\<bar> = a / b"
    using ab assms(2) by (simp add: signed_divide signed_abs)
  have b: "b \<noteq> 0" using assms(2) by simp
  show ?thesis
  proof (rule to_double_cases [OF ab, where s = "xor_sign s t"])
    assume "to_double (xor_sign s t) (a / b) = Infinity (xor_sign s t)" "2 ^ 1023 < a / b"
    then show ?thesis using that(1) [of "xor_sign s t"] z b by simp
  next
    fix r
    assume fin: "to_double (xor_sign s t) (a / b) = Finite (xor_sign s t) r" "0 \<le> r"
      "representable r" "\<bar>r - a / b\<bar> \<le> 1 / 2 ^ 53 * (a / b) + 1 / 2 ^ 1075"
    have "\<bar>signed (xor_sign s t) r - signed s a / signed t b\<bar> = \<bar>r - a / b\<bar>"
      using assms(2) by (simp add: signed_divide signed_diff)
    then show ?thesis using that(2) [of "xor_sign s t" r] fin z b by simp
  qed
qed

lemma rounded_sum_cases:
  fixes z :: rat
  assumes res: "res = (if z = 0 then Finite s0 0 else to_double (sign_of z) \<bar>z\<bar>)"
  obtains (overflow) w where "res = Infinity w" "2 ^ 1023 < \<bar>z\<bar>"
  | (finite) w c where "res = Finite w c" "0 \<le> c" "representable c"
      "\<bar>signed w c - z\<bar> \<le> 1 / 2 ^ 53 * \<bar>z\<bar> + 1 / 2 ^ 1075"
proof (cases "z = 0")
  case True
  then show ?thesis using finite [of s0 0] res representable_0 by (simp add: signed_def split: sign.splits)
next
  case False
  show ?thesis
  proof (rule to_double_cases [OF abs_ge_zero [of z], where s = "sign_of z"])
    assume "to_double (sign_of z) \<bar>z\<bar> = Infinity (sign_of z)" "2 ^ 1023 < \<bar>z\<bar>"
    then show ?thesis using overflow [of "sign_of z"] res False by simp
  next
    fix r
    assume fin: "to_double (sign_of z) \<bar>z\<bar> = Finite (sign_of z) r" "0 \<le> r"
      "representable r" "\<bar>r - \<bar>z\<bar>\<bar> \<le> 1 / 2 ^ 53 * \<bar>z\<bar> + 1 / 2 ^ 1075"
    have "\<bar>signed (sign_of z) r - z\<bar> = \<bar>r - \<bar>z\<bar>\<bar>"
      using signed_diff [of "sign_of z" r "\<bar>z\<bar>"] by (simp add: signed_sign_of)
    then show ?thesis using finite [of "sign_of z" r] fin res False by simp
  qed
qed

lemma js_add_cases:
  obtains (overflow) w where "js_add (Finite s a) (Finite t b) = Infinity w"
      "2 ^ 1023 < \<bar>signed s a + signed t b\<bar>"
  | (finite) w c where "js_add (Finite s a) (Finite t b) = Finite w c" "0 \<le> c"
      "representable c"
      "\<bar>signed w c - (signed s a + signed t b)\<bar>
         \<le> 1 / 2 ^ 53 * \<bar>signed s a + signed t b\<bar> + 1 / 2 ^ 1075"
proof -
  have "js_add (Finite s a) (Finite t b) =
      (if signed s a + signed t b = 0 then Finite (if s = Neg \<and> t = Neg then Neg else Pos) 0
       else to_double (sign_of (signed s a + signed t b)) \<bar>signed s a + signed t b\<bar>)"
    by (simp add: Let_def)
  then show ?thesis using that by (rule rounded_sum_cases)
qed

lemma js_sub_cases:
  obtains (overflow) w where "js_sub (Finite s a) (Finite t b) = Infinity w"
      "2 ^ 1023 < \<bar>signed s a - signed t b\<bar>"
  | (finite) w c where "js_sub (Finite s a) (Finite t b) = Finite w c" "0 \<le> c"
      "representable c"
      "\<bar>signed w c - (signed s a - signed t b)\<bar>
         \<le> 1 / 2 ^ 53 * \<bar>signed s a - signed t b\<bar> + 1 / 2 ^ 1075"
proof -
  have "js_sub (Finite s a) (Finite t b) =
      (if signed s a - signed t b = 0 then Finite (if s = Neg \<and> t = Pos then Neg else Pos) 0
       else to_double (sign_of (signed s a - signed t b)) \<bar>signed s a - signed t b\<bar>)"
    by (simp add: Let_def)
  then show ?thesis using that by (rule rounded_sum_cases)
qed

lemma representable_least:
  assumes "representable a" "0 < a"
  shows "1 / 2 ^ 1074 \<le> a"
proof -
  define e where "e = max (ilog2 a) (- 1022)"
  define q :: rat where "q = 2 powi (e - 52)"
  define m where "m = round_half_even (a / q)"
  have q: "0 < q" by (simp add: q_def)
  have "to_double Pos a = Finite Pos a"
    using assms by (simp add: representable_def)
  then have a: "a = of_int m * q"
    using assms(2)
    by (simp add: to_double_def Let_def e_def q_def m_def split: if_splits)
  have "0 < of_int m * q" using a assms(2) by simp
  then have "0 < (of_int m :: rat)" using q by (simp add: zero_less_mult_iff)
  then have "1 \<le> m" by simp
  then have "(1::rat) \<le> of_int m" by simp
  then have "1 * q \<le> of_int m * q" using q by (intro mult_right_mono) simp_all
  then have "q \<le> a" using a by simp
  moreover have "(2::rat) powi (- 1074) \<le> q"
    unfolding q_def by (rule power_int_increasing) (simp_all add: e_def)
  moreover have "(2::rat) powi (- 1074) = 1 / 2 ^ 1074"
    by (simp add: power_int_minus divide_simps)
  ultimately show ?thesis by simp
qed

subsection \<open>The errors of a round trip\<close>

text \<open>
  The four roundings of \<open>((x * s + m) - m) / s\<close>, each with a relative error of at most
  \<open>u\<close> and an absolute one of at most \<open>h\<close>, add up to an error of at most
  \<open>8 * u * (\<bar>x\<bar> + \<bar>m / s\<bar>) + 8 * h * (1 + 1 / \<bar>s\<bar>)\<close>, and none of the four exact
  results is beyond twice a bound on \<open>\<bar>x * s\<bar> + \<bar>m\<bar>\<close> and \<open>\<bar>x\<bar> + \<bar>m / s\<bar>\<close>.
\<close>

lemma chain_product:
  fixes X S M p u h :: rat
  assumes e1: "\<bar>p - X * S\<bar> \<le> u * \<bar>X * S\<bar> + h"
  shows "\<bar>p + M\<bar> \<le> \<bar>X * S\<bar> + u * \<bar>X * S\<bar> + h + \<bar>M\<bar>"
  using e1 by linarith

lemma chain_sum:
  fixes X S M p d u h :: rat
  assumes u: "0 \<le> u" "u \<le> 1 / 8" and h: "0 \<le> h"
    and e1: "\<bar>p - X * S\<bar> \<le> u * \<bar>X * S\<bar> + h"
    and e2: "\<bar>d - (p + M)\<bar> \<le> u * \<bar>p + M\<bar> + h"
  shows "\<bar>d - (p + M)\<bar> \<le> 2 * (u * \<bar>X * S\<bar>) + u * \<bar>M\<bar> + 2 * h"
    and "\<bar>d - M\<bar> \<le> \<bar>X * S\<bar> + 3 * (u * \<bar>X * S\<bar>) + u * \<bar>M\<bar> + 3 * h"
proof -
  define a where "a = \<bar>X * S\<bar>"
  define m where "m = \<bar>M\<bar>"
  have a: "0 \<le> a" and m: "0 \<le> m" by (simp_all add: a_def m_def)
  have ua: "0 \<le> u * a" using u(1) a by simp
  have uua: "u * (u * a) \<le> u * a"
    using mult_right_mono [of u 1 "u * a"] u ua by simp
  have uh: "u * h \<le> h" using mult_right_mono [of u 1 h] u h by simp
  have "\<bar>p + M\<bar> \<le> a + u * a + h + m"
    using chain_product [OF e1, of M] by (simp add: a_def m_def)
  then have "u * \<bar>p + M\<bar> \<le> u * (a + u * a + h + m)"
    using u(1) by (rule mult_left_mono)
  also have "\<dots> = u * a + u * (u * a) + u * h + u * m" by (simp add: algebra_simps)
  finally have "u * \<bar>p + M\<bar> \<le> 2 * (u * a) + u * m + h" using uua uh by linarith
  then show 1: "\<bar>d - (p + M)\<bar> \<le> 2 * (u * \<bar>X * S\<bar>) + u * \<bar>M\<bar> + 2 * h"
    using e2 by (simp add: a_def m_def)
  show "\<bar>d - M\<bar> \<le> \<bar>X * S\<bar> + 3 * (u * \<bar>X * S\<bar>) + u * \<bar>M\<bar> + 3 * h"
    using 1 e1 by linarith
qed

lemma chain_difference:
  fixes X S M p d t u h :: rat
  assumes u: "0 \<le> u" "u \<le> 1 / 8" and h: "0 \<le> h"
    and e1: "\<bar>p - X * S\<bar> \<le> u * \<bar>X * S\<bar> + h"
    and e2: "\<bar>d - (p + M)\<bar> \<le> u * \<bar>p + M\<bar> + h"
    and e3: "\<bar>t - (d - M)\<bar> \<le> u * \<bar>d - M\<bar> + h"
  shows "\<bar>t - X * S\<bar> \<le> 5 * (u * \<bar>X * S\<bar>) + 2 * (u * \<bar>M\<bar>) + 5 * h"
proof -
  define a where "a = \<bar>X * S\<bar>"
  define m where "m = \<bar>M\<bar>"
  have a: "0 \<le> a" and m: "0 \<le> m" by (simp_all add: a_def m_def)
  have ua: "0 \<le> u * a" using u(1) a by simp
  have um: "0 \<le> u * m" using u(1) m by simp
  have uua: "3 * (u * (u * a)) \<le> u * a"
    using mult_right_mono [of "3 * u" 1 "u * a"] u ua by simp
  have uum: "u * (u * m) \<le> u * m"
    using mult_right_mono [of u 1 "u * m"] u um by simp
  have uh: "3 * (u * h) \<le> h" using mult_right_mono [of "3 * u" 1 h] u h by simp
  note s = chain_sum [OF u h e1 e2]
  have "\<bar>d - M\<bar> \<le> a + 3 * (u * a) + u * m + 3 * h"
    using s(2) by (simp add: a_def m_def)
  then have "u * \<bar>d - M\<bar> \<le> u * (a + 3 * (u * a) + u * m + 3 * h)"
    using u(1) by (rule mult_left_mono)
  also have "\<dots> = u * a + 3 * (u * (u * a)) + u * (u * m) + 3 * (u * h)"
    by (simp add: algebra_simps)
  finally have "u * \<bar>d - M\<bar> \<le> 2 * (u * a) + u * m + h" using uua uum uh by linarith
  then have 3: "\<bar>t - (d - M)\<bar> \<le> 2 * (u * a) + u * m + 2 * h" using e3 by linarith
  have 2: "\<bar>d - (p + M)\<bar> \<le> 2 * (u * a) + u * m + 2 * h"
    using s(1) by (simp add: a_def m_def)
  have 1: "\<bar>p - X * S\<bar> \<le> u * a + h" using e1 by (simp add: a_def)
  have "\<bar>t - X * S\<bar> \<le> 5 * (u * a) + 2 * (u * m) + 5 * h"
    using 1 2 3 by linarith
  then show ?thesis by (simp add: a_def m_def)
qed

lemma chain_quotient:
  fixes X S M p d t u h :: rat
  assumes u: "0 \<le> u" "u \<le> 1 / 8" and h: "0 \<le> h" and S: "S \<noteq> 0"
    and e1: "\<bar>p - X * S\<bar> \<le> u * \<bar>X * S\<bar> + h"
    and e2: "\<bar>d - (p + M)\<bar> \<le> u * \<bar>p + M\<bar> + h"
    and e3: "\<bar>t - (d - M)\<bar> \<le> u * \<bar>d - M\<bar> + h"
  shows "\<bar>t / S - X\<bar> \<le> 5 * (u * \<bar>X\<bar>) + 2 * (u * \<bar>M / S\<bar>) + 5 * (h / \<bar>S\<bar>)"
    and "u * \<bar>t / S\<bar> \<le> 2 * (u * \<bar>X\<bar>) + u * \<bar>M / S\<bar> + h / \<bar>S\<bar>"
proof -
  define x where "x = \<bar>X\<bar>"
  define m where "m = \<bar>M / S\<bar>"
  define g where "g = h / \<bar>S\<bar>"
  have x: "0 \<le> x" and m: "0 \<le> m" and g: "0 \<le> g" using h by (simp_all add: x_def m_def g_def)
  have S': "0 < \<bar>S\<bar>" using S by simp
  have "t / S - X = (t - X * S) / S" using S by (simp add: field_simps)
  then have "\<bar>t / S - X\<bar> = \<bar>t - X * S\<bar> / \<bar>S\<bar>" by (simp only: abs_divide)
  also have "\<dots> \<le> (5 * (u * \<bar>X * S\<bar>) + 2 * (u * \<bar>M\<bar>) + 5 * h) / \<bar>S\<bar>"
    using chain_difference [OF u h e1 e2 e3] S' by (simp add: divide_right_mono)
  also have "\<dots> = 5 * (u * x) + 2 * (u * m) + 5 * g"
    using S by (simp add: x_def m_def g_def abs_mult add_divide_distrib)
  finally show 1: "\<bar>t / S - X\<bar> \<le> 5 * (u * \<bar>X\<bar>) + 2 * (u * \<bar>M / S\<bar>) + 5 * (h / \<bar>S\<bar>)"
    by (simp add: x_def m_def g_def)
  have ux: "0 \<le> u * x" using u(1) x by simp
  have um: "0 \<le> u * m" using u(1) m by simp
  have uux: "5 * (u * (u * x)) \<le> u * x"
    using mult_right_mono [of "5 * u" 1 "u * x"] u ux by simp
  have uum: "2 * (u * (u * m)) \<le> u * m"
    using mult_right_mono [of "2 * u" 1 "u * m"] u um by simp
  have ug: "5 * (u * g) \<le> g" using mult_right_mono [of "5 * u" 1 g] u g by simp
  have "\<bar>t / S\<bar> \<le> x + 5 * (u * x) + 2 * (u * m) + 5 * g"
    using 1 by (simp add: x_def m_def g_def) linarith
  then have "u * \<bar>t / S\<bar> \<le> u * (x + 5 * (u * x) + 2 * (u * m) + 5 * g)"
    using u(1) by (rule mult_left_mono)
  also have "\<dots> = u * x + 5 * (u * (u * x)) + 2 * (u * (u * m)) + 5 * (u * g)"
    by (simp add: algebra_simps)
  finally have "u * \<bar>t / S\<bar> \<le> 2 * (u * x) + u * m + g" using uux uum ug by linarith
  then show "u * \<bar>t / S\<bar> \<le> 2 * (u * \<bar>X\<bar>) + u * \<bar>M / S\<bar> + h / \<bar>S\<bar>"
    by (simp add: x_def m_def g_def)
qed

lemma round_trip_error:
  fixes X S M p d t r u h :: rat
  assumes u: "0 \<le> u" "u \<le> 1 / 8" and h: "0 \<le> h" and S: "S \<noteq> 0"
    and e1: "\<bar>p - X * S\<bar> \<le> u * \<bar>X * S\<bar> + h"
    and e2: "\<bar>d - (p + M)\<bar> \<le> u * \<bar>p + M\<bar> + h"
    and e3: "\<bar>t - (d - M)\<bar> \<le> u * \<bar>d - M\<bar> + h"
    and e4: "\<bar>r - t / S\<bar> \<le> u * \<bar>t / S\<bar> + h"
  shows "\<bar>r - X\<bar> \<le> 8 * u * (\<bar>X\<bar> + \<bar>M / S\<bar>) + 8 * h * (1 + 1 / \<bar>S\<bar>)"
proof -
  note q = chain_quotient [OF u h S e1 e2 e3]
  define e where "e = \<bar>r - t / S\<bar>"
  define f where "f = \<bar>t / S - X\<bar>"
  define w where "w = u * \<bar>t / S\<bar>"
  define a where "a = u * \<bar>X\<bar>"
  define b where "b = u * \<bar>M / S\<bar>"
  define g where "g = h / \<bar>S\<bar>"
  have n: "0 \<le> a" "0 \<le> b" "0 \<le> g" using u(1) h by (simp_all add: a_def b_def g_def)
  have 1: "e \<le> w + h" using e4 by (simp add: e_def w_def)
  have 2: "w \<le> 2 * a + b + g" using q(2) by (simp add: w_def a_def b_def g_def)
  have 3: "f \<le> 5 * a + 2 * b + 5 * g" using q(1) by (simp add: f_def a_def b_def g_def)
  have 4: "\<bar>r - X\<bar> \<le> e + f"
    using abs_triangle_ineq [of "r - t / S" "t / S - X"] by (simp add: e_def f_def)
  have "\<bar>r - X\<bar> \<le> 8 * a + 8 * b + 8 * g + 8 * h" using 1 2 3 4 n h by linarith
  also have "\<dots> = 8 * u * (\<bar>X\<bar> + \<bar>M / S\<bar>) + 8 * h * (1 + 1 / \<bar>S\<bar>)"
    by (simp add: a_def b_def g_def algebra_simps)
  finally show ?thesis .
qed

lemma round_trip_bounded:
  fixes X S M p d t B u h :: rat
  assumes u: "0 \<le> u" "u \<le> 1 / 8" and h: "0 \<le> h" "h \<le> 1" and S: "S \<noteq> 0"
    and g: "h / \<bar>S\<bar> \<le> 1 / 2"
    and B: "8 \<le> B" "\<bar>X * S\<bar> + \<bar>M\<bar> \<le> B" "\<bar>X\<bar> + \<bar>M / S\<bar> \<le> B"
    and e1: "\<bar>p - X * S\<bar> \<le> u * \<bar>X * S\<bar> + h"
  shows "\<bar>p + M\<bar> \<le> 2 * B"
    and "\<bar>d - (p + M)\<bar> \<le> u * \<bar>p + M\<bar> + h \<Longrightarrow> \<bar>d - M\<bar> \<le> 2 * B"
    and "\<bar>d - (p + M)\<bar> \<le> u * \<bar>p + M\<bar> + h \<Longrightarrow> \<bar>t - (d - M)\<bar> \<le> u * \<bar>d - M\<bar> + h
      \<Longrightarrow> \<bar>t / S\<bar> \<le> 2 * B"
proof -
  define a where "a = \<bar>X * S\<bar>"
  define m where "m = \<bar>M\<bar>"
  define x where "x = \<bar>X\<bar>"
  define n where "n = \<bar>M / S\<bar>"
  have nn: "0 \<le> a" "0 \<le> m" "0 \<le> x" "0 \<le> n" by (simp_all add: a_def m_def x_def n_def)
  have ua: "u * a \<le> a / 8" using mult_right_mono [of u "1 / 8" a] u nn by simp
  have um: "u * m \<le> m / 8" using mult_right_mono [of u "1 / 8" m] u nn by simp
  have ux: "u * x \<le> x / 8" using mult_right_mono [of u "1 / 8" x] u nn by simp
  have un: "u * n \<le> n / 8" using mult_right_mono [of u "1 / 8" n] u nn by simp
  have Ba: "a + m \<le> B" using B(2) by (simp add: a_def m_def)
  have Bx: "x + n \<le> B" using B(3) by (simp add: x_def n_def)
  have "\<bar>p + M\<bar> \<le> a + u * a + h + m"
    using chain_product [OF e1, of M] by (simp add: a_def m_def)
  then show "\<bar>p + M\<bar> \<le> 2 * B" using ua Ba h(2) B(1) nn by linarith
  {
    assume e2: "\<bar>d - (p + M)\<bar> \<le> u * \<bar>p + M\<bar> + h"
    have "\<bar>d - M\<bar> \<le> a + 3 * (u * a) + u * m + 3 * h"
      using chain_sum(2) [OF u h(1) e1 e2] by (simp add: a_def m_def)
    then show "\<bar>d - M\<bar> \<le> 2 * B" using ua um Ba h(2) B(1) nn by linarith
    assume e3: "\<bar>t - (d - M)\<bar> \<le> u * \<bar>d - M\<bar> + h"
    have "\<bar>t / S - X\<bar> \<le> 5 * (u * x) + 2 * (u * n) + 5 * (h / \<bar>S\<bar>)"
      using chain_quotient(1) [OF u h(1) S e1 e2 e3] by (simp add: x_def n_def)
    moreover have "\<bar>t / S\<bar> \<le> \<bar>t / S - X\<bar> + x"
      unfolding x_def by linarith
    ultimately show "\<bar>t / S\<bar> \<le> 2 * B" using ux un Bx g B(1) nn by linarith
  }
qed

lemma round_trip_element:
  assumes ax: "0 \<le> ax" and am: "0 \<le> am" and as: "0 < as"
  shows "(finite_double
       (js_div (js_sub (js_add (js_mul (Finite sx ax) (Finite ss as)) (Finite sm am))
          (Finite sm am)) (Finite ss as)) \<longrightarrow>
      \<bar>value_of (js_div (js_sub (js_add (js_mul (Finite sx ax) (Finite ss as)) (Finite sm am))
          (Finite sm am)) (Finite ss as)) - signed sx ax\<bar>
        \<le> (\<bar>signed sx ax\<bar> + \<bar>signed sm am / signed ss as\<bar>) / 2 ^ 50
           + (1 + 1 / \<bar>signed ss as\<bar>) / 2 ^ 1072)
    \<and> (representable as
        \<and> \<bar>signed sx ax * signed ss as\<bar> + \<bar>signed sm am\<bar> \<le> 2 ^ 1022
        \<and> \<bar>signed sx ax\<bar> + \<bar>signed sm am / signed ss as\<bar> \<le> 2 ^ 1022 \<longrightarrow>
      finite_double
       (js_div (js_sub (js_add (js_mul (Finite sx ax) (Finite ss as)) (Finite sm am))
          (Finite sm am)) (Finite ss as)))"
proof -
  define X where "X = signed sx ax"
  define S where "S = signed ss as"
  define M where "M = signed sm am"
  define u :: rat where "u = 1 / 2 ^ 53"
  define h :: rat where "h = 1 / 2 ^ 1075"
  define B :: rat where "B = 2 ^ 1022"
  let ?r = "js_div (js_sub (js_add (js_mul (Finite sx ax) (Finite ss as)) (Finite sm am))
          (Finite sm am)) (Finite ss as)"
  let ?bounds = "representable as \<and> \<bar>X * S\<bar> + \<bar>M\<bar> \<le> B \<and> \<bar>X\<bar> + \<bar>M / S\<bar> \<le> B"
  have u: "0 \<le> u" "u \<le> 1 / 8" by (simp_all add: u_def)
  have h: "0 \<le> h" "h \<le> 1" by (simp_all add: h_def)
  have S: "S \<noteq> 0" using as by (cases ss) (simp_all add: S_def signed_def)
  have absS: "\<bar>S\<bar> = as" using as by (simp add: S_def signed_abs)
  have B: "8 \<le> B" "2 * B = 2 ^ 1023" by (simp_all add: B_def)
  have g: "h / \<bar>S\<bar> \<le> 1 / 2" if "representable as"
  proof -
    have "1 / 2 ^ 1074 \<le> as" using representable_least [OF that as] .
    then have "h \<le> 1 / 2 * as" by (simp add: h_def)
    then show ?thesis using as by (simp add: absS pos_divide_le_eq)
  qed
  have as0: "0 \<le> as" using as by simp
  have goal: "(finite_double ?r \<longrightarrow>
      \<bar>value_of ?r - X\<bar> \<le> 8 * u * (\<bar>X\<bar> + \<bar>M / S\<bar>) + 8 * h * (1 + 1 / \<bar>S\<bar>))
    \<and> (?bounds \<longrightarrow> finite_double ?r)"
  proof (rule js_mul_cases [OF ax as0, of sx ss])
    fix w
    assume p: "js_mul (Finite sx ax) (Finite ss as) = Infinity w"
      and big: "2 ^ 1023 < \<bar>signed sx ax * signed ss as\<bar>"
    have "\<not> finite_double ?r" unfolding p by (simp add: finite_double_def)
    moreover have "\<not> ?bounds"
    proof
      assume ?bounds
      then have "\<bar>X * S\<bar> \<le> B" by linarith
      then show False using big by (simp add: X_def S_def B_def)
    qed
    ultimately show ?thesis by blast
  next
    fix w c
    assume p: "js_mul (Finite sx ax) (Finite ss as) = Finite w c" and c: "0 \<le> c"
      and "\<bar>signed w c - signed sx ax * signed ss as\<bar>
        \<le> 1 / 2 ^ 53 * \<bar>signed sx ax * signed ss as\<bar> + 1 / 2 ^ 1075"
    then have e1: "\<bar>signed w c - X * S\<bar> \<le> u * \<bar>X * S\<bar> + h"
      by (simp add: X_def S_def u_def h_def)
    show ?thesis
    proof (rule js_add_cases [of w c sm am])
      fix v
      assume d: "js_add (Finite w c) (Finite sm am) = Infinity v"
        and big: "2 ^ 1023 < \<bar>signed w c + signed sm am\<bar>"
      have "\<not> finite_double ?r" unfolding p d by (simp add: finite_double_def)
      moreover have "\<not> ?bounds"
      proof
        assume b: ?bounds
        have "\<bar>signed w c + M\<bar> \<le> 2 * B"
          using round_trip_bounded(1) [OF u h S g B(1) _ _ e1] b by blast
        then show False using big B(2) by (simp add: M_def)
      qed
      ultimately show ?thesis by blast
    next
      fix v d
      assume d: "js_add (Finite w c) (Finite sm am) = Finite v d" and d0: "0 \<le> d"
        and "\<bar>signed v d - (signed w c + signed sm am)\<bar>
          \<le> 1 / 2 ^ 53 * \<bar>signed w c + signed sm am\<bar> + 1 / 2 ^ 1075"
      then have e2: "\<bar>signed v d - (signed w c + M)\<bar> \<le> u * \<bar>signed w c + M\<bar> + h"
        by (simp add: M_def u_def h_def)
      show ?thesis
      proof (rule js_sub_cases [of v d sm am])
        fix y
        assume t: "js_sub (Finite v d) (Finite sm am) = Infinity y"
          and big: "2 ^ 1023 < \<bar>signed v d - signed sm am\<bar>"
        have "\<not> finite_double ?r" unfolding p d t by (simp add: finite_double_def)
        moreover have "\<not> ?bounds"
        proof
          assume b: ?bounds
          have "\<bar>signed v d - M\<bar> \<le> 2 * B"
            using round_trip_bounded(2) [OF u h S g B(1) _ _ e1 e2] b by blast
          then show False using big B(2) by (simp add: M_def)
        qed
        ultimately show ?thesis by blast
      next
        fix y t
        assume t: "js_sub (Finite v d) (Finite sm am) = Finite y t" and t0: "0 \<le> t"
          and "\<bar>signed y t - (signed v d - signed sm am)\<bar>
            \<le> 1 / 2 ^ 53 * \<bar>signed v d - signed sm am\<bar> + 1 / 2 ^ 1075"
        then have e3: "\<bar>signed y t - (signed v d - M)\<bar> \<le> u * \<bar>signed v d - M\<bar> + h"
          by (simp add: M_def u_def h_def)
        show ?thesis
        proof (rule js_div_cases [OF t0 as, of y ss])
          fix z
          assume r: "js_div (Finite y t) (Finite ss as) = Infinity z"
            and big: "2 ^ 1023 < \<bar>signed y t / signed ss as\<bar>"
          have "\<not> finite_double ?r" unfolding p d t r by (simp add: finite_double_def)
          moreover have "\<not> ?bounds"
          proof
            assume b: ?bounds
            have "\<bar>signed y t / S\<bar> \<le> 2 * B"
              using round_trip_bounded(3) [OF u h S g B(1) _ _ e1 e2 e3] b by blast
            then show False using big B(2) by (simp add: S_def)
          qed
          ultimately show ?thesis by blast
        next
          fix z r
          assume r: "js_div (Finite y t) (Finite ss as) = Finite z r" and r0: "0 \<le> r"
            and rr: "representable r"
            and "\<bar>signed z r - signed y t / signed ss as\<bar>
              \<le> 1 / 2 ^ 53 * \<bar>signed y t / signed ss as\<bar> + 1 / 2 ^ 1075"
          then have e4: "\<bar>signed z r - signed y t / S\<bar> \<le> u * \<bar>signed y t / S\<bar> + h"
            by (simp add: S_def u_def h_def)
          have res: "?r = Finite z r" unfolding p d t r ..
          have "finite_double ?r" unfolding res using r0 rr by (simp add: finite_double_def)
          moreover have "\<bar>value_of ?r - X\<bar>
              \<le> 8 * u * (\<bar>X\<bar> + \<bar>M / S\<bar>) + 8 * h * (1 + 1 / \<bar>S\<bar>)"
            unfolding res using round_trip_error [OF u h(1) S e1 e2 e3 e4]
            by (simp add: value_of_def)
          ultimately show ?thesis by blast
        qed
      qed
    qed
  qed
  have "8 * u * (\<bar>X\<bar> + \<bar>M / S\<bar>) + 8 * h * (1 + 1 / \<bar>S\<bar>)
      = (\<bar>X\<bar> + \<bar>M / S\<bar>) / 2 ^ 50 + (1 + 1 / \<bar>S\<bar>) / 2 ^ 1072"
    by (simp add: u_def h_def)
  then show ?thesis using goal by (simp add: X_def S_def M_def B_def)
qed

section \<open>The validator\<close>

text \<open>
  A field of the schema is rejected exactly when it is not a string or, for a flag, when
  the number of the string is neither 0 nor 1; the schema accepts the query when no field
  is rejected, and its error otherwise holds at least one issue.
\<close>

lemma number_field_Inl:
  "transform (\<lambda>s. Number (Inl s)) (z_string key v) = Inl issues \<longleftrightarrow>
     (\<forall>s. v \<noteq> Some (QString s)) \<and> issues = [invalid_type_issue key v]"
  by (auto simp: transform_def z_string_def Number_def split: option.splits qval.splits)

lemma flag_field_Inl:
  "refine key zero_or_one (transform (\<lambda>s. Number (Inl s)) (z_string key v)) = Inl issues \<longleftrightarrow>
     ((\<forall>s. v \<noteq> Some (QString s)) \<and> issues = [invalid_type_issue key v])
     \<or> ((\<exists>s. v = Some (QString s) \<and> \<not> zero_or_one (StringToNumber s))
          \<and> issues = [custom_issue key])"
  by (auto simp: refine_def transform_def z_string_def Number_def
      split: option.splits qval.splits)

lemma number_field_isl:
  "isl (transform (\<lambda>s. Number (Inl s)) (z_string key v)) \<longleftrightarrow> (\<forall>s. v \<noteq> Some (QString s))"
  by (auto simp: transform_def z_string_def split: option.splits qval.splits)

lemma flag_field_isl:
  "isl (refine key zero_or_one (transform (\<lambda>s. Number (Inl s)) (z_string key v))) \<longleftrightarrow>
     \<not> (\<exists>s. v = Some (QString s) \<and> zero_or_one (StringToNumber s))"
  by (auto simp: refine_def transform_def z_string_def Number_def
      split: option.splits qval.splits)

lemma flag_field_issues:
  "issues_of (refine key zero_or_one (transform (\<lambda>s. Number (Inl s)) (z_string key v))) =
     (case v of
        Some (QString s) \<Rightarrow> if zero_or_one (StringToNumber s) then [] else [custom_issue key]
      | _ \<Rightarrow> [invalid_type_issue key v])"
  by (auto simp: issues_of_def refine_def transform_def z_string_def Number_def
      split: option.splits qval.splits)

lemma five_fields:
  "(case (fd, fr, fp, fc, fo) of
      (Inr dv, Inr rv, Inr pv, Inr cv, Inr ov) \<Rightarrow> A dv rv pv cv ov
    | _ \<Rightarrow> B) =
   (if isl fd \<or> isl fr \<or> isl fp \<or> isl fc \<or> isl fo then B
    else A (projr fd) (projr fr) (projr fp) (projr fc) (projr fo))"
  by (cases fd; cases fr; cases fp; cases fc; cases fo) simp_all

lemma QuerySchema_parse_accepts:
  assumes "q ''distance'' = Some (QString d)" "q ''ratio_to_median'' = Some (QString r)"
    and "q ''pin'' = Some (QString p)" "q ''chip'' = Some (QString c)"
    and "q ''online'' = Some (QString n)"
    and "zero_or_one (StringToNumber p)" "zero_or_one (StringToNumber c)"
    and "zero_or_one (StringToNumber n)"
  shows "QuerySchema_parse q =
    Inr \<lparr>distance = StringToNumber d, ratio_to_median = StringToNumber r,
         pin = StringToNumber p, chip = StringToNumber c, online = StringToNumber n\<rparr>"
  using assms
  by (simp add: QuerySchema_parse_def refine_def transform_def z_string_def Number_def)

lemma QuerySchema_parse_eq:
  "QuerySchema_parse q =
     (let fd = transform (\<lambda>s. Number (Inl s)) (z_string ''distance'' (q ''distance''));
          fr = transform (\<lambda>s. Number (Inl s))
                 (z_string ''ratio_to_median'' (q ''ratio_to_median''));
          fp = refine ''pin'' zero_or_one
                 (transform (\<lambda>s. Number (Inl s)) (z_string ''pin'' (q ''pin'')));
          fc = refine ''chip'' zero_or_one
                 (transform (\<lambda>s. Number (Inl s)) (z_string ''chip'' (q ''chip'')));
          fo = refine ''online'' zero_or_one
                 (transform (\<lambda>s. Number (Inl s)) (z_string ''online'' (q ''online'')))
      in if isl fd \<or> isl fr \<or> isl fp \<or> isl fc \<or> isl fo
         then Inl (ZodError
                (issues_of fd @ issues_of fr @ issues_of fp @ issues_of fc @ issues_of fo))
         else Inr \<lparr>distance = projr fd, ratio_to_median = projr fr, pin = projr fp,
                   chip = projr fc, online = projr fo\<rparr>)"
  unfolding QuerySchema_parse_def Let_def five_fields by simp

lemma QuerySchema_parse_issues:
  assumes "QuerySchema_parse q = Inl e"
  shows "\<exists>issues. e = ZodError issues \<and> issues \<noteq> []"
proof -
  let ?fd = "transform (\<lambda>s. Number (Inl s)) (z_string ''distance'' (q ''distance''))"
  let ?fr = "transform (\<lambda>s. Number (Inl s))
    (z_string ''ratio_to_median'' (q ''ratio_to_median''))"
  let ?fp = "refine ''pin'' zero_or_one
    (transform (\<lambda>s. Number (Inl s)) (z_string ''pin'' (q ''pin'')))"
  let ?fc = "refine ''chip'' zero_or_one
    (transform (\<lambda>s. Number (Inl s)) (z_string ''chip'' (q ''chip'')))"
  let ?fo = "refine ''online'' zero_or_one
    (transform (\<lambda>s. Number (Inl s)) (z_string ''online'' (q ''online'')))"
  have ne: "issues_of f \<noteq> []" if "isl f" "f \<noteq> Inl []" for f :: "jsval list + number"
    using that by (cases f) (simp_all add: issues_of_def)
  have d: "?fd \<noteq> Inl []" by (simp add: number_field_Inl)
  have r: "?fr \<noteq> Inl []" by (simp add: number_field_Inl)
  have p: "?fp \<noteq> Inl []" by (simp add: flag_field_Inl)
  have c: "?fc \<noteq> Inl []" by (simp add: flag_field_Inl)
  have o: "?fo \<noteq> Inl []" by (simp add: flag_field_Inl)
  from assms have some: "isl ?fd \<or> isl ?fr \<or> isl ?fp \<or> isl ?fc \<or> isl ?fo"
    unfolding QuerySchema_parse_eq Let_def by (simp split: if_splits)
  then have "issues_of ?fd @ issues_of ?fr @ issues_of ?fp @ issues_of ?fc @ issues_of ?fo \<noteq> []"
  proof (elim disjE)
    assume "isl ?fd"
    then have "issues_of ?fd \<noteq> []" using d by (rule ne)
    then show ?thesis by simp
  next
    assume "isl ?fr"
    then have "issues_of ?fr \<noteq> []" using r by (rule ne)
    then show ?thesis by simp
  next
    assume "isl ?fp"
    then have "issues_of ?fp \<noteq> []" using p by (rule ne)
    then show ?thesis by simp
  next
    assume "isl ?fc"
    then have "issues_of ?fc \<noteq> []" using c by (rule ne)
    then show ?thesis by simp
  next
    assume "isl ?fo"
    then have "issues_of ?fo \<noteq> []" using o by (rule ne)
    then show ?thesis by simp
  qed
  moreover have "e = ZodError
      (issues_of ?fd @ issues_of ?fr @ issues_of ?fp @ issues_of ?fc @ issues_of ?fo)"
    using assms some unfolding QuerySchema_parse_eq Let_def by (simp split: if_splits)
  ultimately show ?thesis by blast
qed

lemma QuerySchema_parse_rejects:
  assumes "(\<forall>s. q ''distance'' \<noteq> Some (QString s))
    \<or> (\<forall>s. q ''ratio_to_median'' \<noteq> Some (QString s))
    \<or> \<not> (\<exists>s. q ''pin'' = Some (QString s) \<and> zero_or_one (StringToNumber s))
    \<or> \<not> (\<exists>s. q ''chip'' = Some (QString s) \<and> zero_or_one (StringToNumber s))
    \<or> \<not> (\<exists>s. q ''online'' = Some (QString s) \<and> zero_or_one (StringToNumber s))"
  shows "\<exists>issues. QuerySchema_parse q = Inl (ZodError issues) \<and> issues \<noteq> []"
proof -
  have "isl (QuerySchema_parse q)"
    using assms unfolding QuerySchema_parse_eq Let_def number_field_isl flag_field_isl
    by auto
  then obtain e where "QuerySchema_parse q = Inl e" by (cases "QuerySchema_parse q") auto
  then show ?thesis using QuerySchema_parse_issues by blast
qed

lemma custom_issue_path: "get_property (custom_issue key) ''path'' = Inr (JArr [JStr key])"
  by (simp add: custom_issue_def)

lemma pin_two_issues:
  assumes "q ''pin'' = Some (QString ''2'')"
  shows "\<exists>issues. QuerySchema_parse q = Inl (ZodError issues) \<and> custom_issue ''pin'' \<in> set issues"
proof -
  have i: "issues_of (refine ''pin'' zero_or_one
      (transform (\<lambda>s. Number (Inl s)) (z_string ''pin'' (q ''pin'')))) = [custom_issue ''pin'']"
    using assms by (simp add: flag_field_issues StringToNumber_2 not_zero_or_one_2)
  have l: "isl (refine ''pin'' zero_or_one
      (transform (\<lambda>s. Number (Inl s)) (z_string ''pin'' (q ''pin''))))"
    using assms by (simp add: flag_field_isl StringToNumber_2 not_zero_or_one_2)
  show ?thesis
    unfolding QuerySchema_parse_eq Let_def using i l by simp
qed

lemma scenario_query_accepted:
  "QuerySchema_parse scenario_query =
     Inr \<lparr>distance = Finite Pos 10, ratio_to_median = Finite Pos (5404319552844595 / 2 ^ 52),
          pin = Finite Pos 1, chip = Finite Pos 1, online = Finite Pos 0\<rparr>"
  using QuerySchema_parse_accepts [of scenario_query "''10''" "''1.2''" "''1''" "''1''" "''0''"]
  by (simp add: scenario_query_def StringToNumber_0 StringToNumber_1 StringToNumber_10
      StringToNumber_1_2 zero_or_one_0 zero_or_one_1)

section \<open>The normalizer\<close>

text \<open>
  The normalizer throws nothing but a TypeError, and with a scaler whose \<open>mean\<close> and
  \<open>scale\<close> are arrays of numbers at least as long as the data it returns the formula's
  value at each index.
\<close>

lemma get_property_throws: "get_property v k = Inl e \<Longrightarrow> e = TypeError"
  by (cases v) auto

lemma get_index_throws: "get_index v i = Inl e \<Longrightarrow> e = TypeError"
  by (cases v) auto

lemma ToNumber_throws: "ToNumber v = Inl e \<Longrightarrow> e = TypeError"
  by (induction v rule: ToNumber.induct)
    (auto split: if_splits jsval.splits)

lemma normalize_at_throws: "normalize_at env val i = Inl e \<Longrightarrow> e = TypeError"
  by (auto simp: normalize_at_def bind_def split: sum.splits
      dest: get_property_throws get_index_throws ToNumber_throws)

lemma map_from_throws:
  assumes "\<And>val i e. f val i = Inl e \<Longrightarrow> e = TypeError"
  shows "map_from f k vals = Inl e \<Longrightarrow> e = TypeError"
proof (induction vals arbitrary: k)
  case Nil
  then show ?case by simp
next
  case (Cons val vals)
  then show ?case
    using assms by (auto simp: bind_def split: sum.splits)
qed

lemma normalizeData_throws: "normalizeData env data = Inl e \<Longrightarrow> e = TypeError"
  unfolding normalizeData_def by (rule map_from_throws [OF normalize_at_throws])

lemma map_from_eq:
  assumes "\<And>i. i < length vals \<Longrightarrow> f (vals ! i) (k + i) = Inr (g (vals ! i) (k + i))"
  shows "map_from f k vals = Inr (map (\<lambda>i. g (vals ! i) (k + i)) [0..<length vals])"
  using assms
proof (induction vals arbitrary: k)
  case Nil
  then show ?case by simp
next
  case (Cons val vals)
  have hd: "f val k = Inr (g val k)" using Cons.prems [of 0] by simp
  have tl: "map_from f (Suc k) vals =
      Inr (map (\<lambda>i. g (vals ! i) (Suc k + i)) [0..<length vals])"
  proof (rule Cons.IH)
    fix i assume "i < length vals"
    then show "f (vals ! i) (Suc k + i) = Inr (g (vals ! i) (Suc k + i))"
      using Cons.prems [of "Suc i"] by simp
  qed
  have "map (\<lambda>i. g ((val # vals) ! i) (k + i)) [0..<length (val # vals)] =
      g val k # map (\<lambda>i. g (vals ! i) (Suc k + i)) [0..<length vals]"
  proof -
    have "[0..<length (val # vals)] = 0 # map Suc [0..<length vals]"
      by (simp add: upt_conv_Cons map_Suc_upt del: upt_Suc)
    then show ?thesis by (simp add: comp_def del: upt_Suc)
  qed
  then show ?case using hd tl by (simp add: bind_def del: upt_Suc)
qed

lemma normalizeData_numbers:
  assumes "get_property (scalerData env) ''mean'' = Inr (JArr (map JNum mean))"
    and "get_property (scalerData env) ''scale'' = Inr (JArr (map JNum scale))"
    and "length data \<le> length mean" and "length data \<le> length scale"
  shows "normalizeData env data =
    Inr (map (\<lambda>i. js_div (js_sub (data ! i) (mean ! i)) (scale ! i)) [0..<length data])"
proof -
  have "map_from (normalize_at env) 0 data =
      Inr (map (\<lambda>i. (\<lambda>val j. js_div (js_sub val (mean ! j)) (scale ! j)) (data ! i) (0 + i))
             [0..<length data])"
  proof (rule map_from_eq)
    fix i assume "i < length data"
    then have "i < length mean" "i < length scale" using assms(3,4) by auto
    then show "normalize_at env (data ! i) (0 + i) =
        Inr (js_div (js_sub (data ! i) (mean ! (0 + i))) (scale ! (0 + i)))"
      using assms(1,2) by (simp add: normalize_at_def bind_def)
  qed
  then show ?thesis by (simp add: normalizeData_def)
qed

lemma upt_0_5: "[0..<5] = [0, 1, 2, 3, 4]"
  by (simp add: upt_rec)

lemma all_less_5: "(\<forall>i<5. P i) \<longleftrightarrow> P 0 \<and> P 1 \<and> P 2 \<and> P 3 \<and> P (4::nat)"
proof
  assume a: "\<forall>i<5. P i"
  show "P 0 \<and> P 1 \<and> P 2 \<and> P 3 \<and> P 4" using a by simp
next
  assume a: "P 0 \<and> P 1 \<and> P 2 \<and> P 3 \<and> P 4"
  show "\<forall>i<5. P i"
  proof (intro allI impI)
    fix i :: nat assume "i < 5"
    then have "i = 0 \<or> i = 1 \<or> i = 2 \<or> i = 3 \<or> i = 4" by arith
    then show "P i" using a by auto
  qed
qed

lemma scenario_mean:
  "get_property (scalerData scenario_env) ''mean'' =
     Inr (JArr (map JNum [Finite Pos 5, Finite Pos 1, Finite Pos (1 / 2), Finite Pos (1 / 2),
       Finite Pos (1 / 2)]))"
  by (simp add: scenario_env_def scenario_scaler_def)

lemma scenario_scale:
  "get_property (scalerData scenario_env) ''scale'' =
     Inr (JArr (map JNum [Finite Pos 2, Finite Pos (1 / 2), Finite Pos (1 / 2),
       Finite Pos (1 / 2), Finite Pos (1 / 2)]))"
  by (simp add: scenario_env_def scenario_scaler_def)

lemma scenario_mean_is_list:
  "get_property (scalerData scenario_env) ''mean'' = Inr (JArr (map JNum scenario_mean_list))"
  by (simp add: scenario_mean scenario_mean_list_def)

lemma scenario_scale_is_list:
  "get_property (scalerData scenario_env) ''scale'' = Inr (JArr (map JNum scenario_scale_list))"
  by (simp add: scenario_scale scenario_scale_list_def)

lemma doubling_mean:
  "get_property (scalerData doubling_env) ''mean'' = Inr (JArr (map JNum zeros))"
  by (simp add: doubling_env_def doubling_scaler_def zeros_def)

lemma doubling_scale:
  "get_property (scalerData doubling_env) ''scale'' = Inr (JArr (map JNum twos))"
  by (simp add: doubling_env_def doubling_scaler_def twos_def)

lemma offset_mean:
  "get_property (scalerData offset_env) ''mean'' = Inr (JArr (map JNum offsets))"
  by (simp add: offset_env_def offset_scaler_def offsets_def)

lemma offset_scale:
  "get_property (scalerData offset_env) ''scale'' = Inr (JArr (map JNum ones))"
  by (simp add: offset_env_def offset_scaler_def ones_def)

lemma scenario_normalizes:
  "\<exists>nd. normalizeData scenario_env [a, b, c, d, e] = Inr nd"
  using normalizeData_numbers [OF scenario_mean scenario_scale, of "[a, b, c, d, e]"] by simp

lemma scenario_normalized:
  "normalizeData scenario_env
     [Finite Pos 10, Finite Pos (5404319552844595 / 4503599627370496), Finite Pos 1,
      Finite Pos 1, Finite Pos 0] =
   Inr [Finite Pos (5 / 2), Finite Pos (3602879701896396 / 2 ^ 53), Finite Pos 1,
        Finite Pos 1, Finite Neg 1]"
  using normalizeData_numbers [OF scenario_mean scenario_scale,
      of "[Finite Pos 10, Finite Pos (5404319552844595 / 2 ^ 52), Finite Pos 1, Finite Pos 1,
           Finite Pos 0]"]
  by (simp add: upt_0_5 signed_def sign_of_def xor_sign_def rounding
      to_double_normal [where e = 2] to_double_normal [where e = 1]
      to_double_normal [where e = 0] to_double_normal [where e = "- 1"]
      to_double_normal [where e = "- 2"] to_double_normal [where e = "- 3"])

text \<open>
  The round trip of \<open>0.4\<close> through the scaler of the scenario: every element comes
  back as \<open>0.3999999999999999\<close>.
\<close>

lemma two_fifths_round_trip:
  "normalizeData scenario_env (denormalize scenario_mean_list scenario_scale_list two_fifths) =
     Inr [Finite Pos (3602879701896396 / 2 ^ 53), Finite Pos (3602879701896396 / 2 ^ 53),
          Finite Pos (3602879701896396 / 2 ^ 53), Finite Pos (3602879701896396 / 2 ^ 53),
          Finite Pos (3602879701896396 / 2 ^ 53)]"
proof -
  have d: "denormalize scenario_mean_list scenario_scale_list two_fifths =
      [Finite Pos (6530219459687219 / 2 ^ 50), Finite Pos (5404319552844595 / 2 ^ 52),
       Finite Pos (6305039478318694 / 2 ^ 53), Finite Pos (6305039478318694 / 2 ^ 53),
       Finite Pos (6305039478318694 / 2 ^ 53)]"
    unfolding denormalize_def scenario_mean_list_def scenario_scale_list_def two_fifths_def
    by (simp add: upt_0_5 xor_sign_def signed_def sign_of_def rounding
        to_double_normal [where e = 2] to_double_normal [where e = 0]
        to_double_normal [where e = "- 1"] to_double_normal [where e = "- 3"])
  show ?thesis
    unfolding d
    using normalizeData_numbers [OF scenario_mean scenario_scale,
        of "[Finite Pos (6530219459687219 / 2 ^ 50), Finite Pos (5404319552844595 / 2 ^ 52),
             Finite Pos (6305039478318694 / 2 ^ 53), Finite Pos (6305039478318694 / 2 ^ 53),
             Finite Pos (6305039478318694 / 2 ^ 53)]"]
    by (simp add: upt_0_5 xor_sign_def signed_def sign_of_def rounding
        to_double_normal [where e = "- 1"] to_double_normal [where e = "- 2"]
        to_double_normal [where e = "- 3"])
qed

section \<open>The endpoint and the application\<close>

text \<open>
  The part of the handler after the agent makes one call, and answers the scenario's
  backend with \<open>is_fraud\<close> true for the probability \<open>0.97\<close>. The handler as a whole
  stops at the agent.
\<close>

lemma infer_calls_once:
  "fst (infer env normalizedData) = [(FRAUD_MODEL_URL env, inference_request normalizedData)]"
  by (simp add: infer_def Let_def split: sum.splits)

lemma infer_scenario:
  "infer scenario_env normalizedData =
     ([([], inference_request normalizedData)],
      Inr \<lparr>status = 200,
           body = JsonBody (JObj [(''is_fraud'', JBool True),
                                  (''fraud_probability'', JNum (StringToNumber ''0.97''))])\<rparr>)"
  by (simp add: infer_def Let_def FRAUD_MODEL_URL_def threshold_def Number_def scenario_env_def
      no_variables_def scenario_backend_def fraudProbability_of_def bind_def prediction_def
      res_json_def signed_def parsing to_double_normal [where e = "- 1"] rounding)

lemma predict_try_eq:
  "predict_try env req =
     ([], case QuerySchema_parse (query req) of
            Inl e \<Rightarrow> Inl e
          | Inr v \<Rightarrow>
              (case normalizeData env
                      [distance v, ratio_to_median v, pin v, chip v, online v] of
                 Inl e \<Rightarrow> Inl e
               | Inr nd \<Rightarrow> Inl (ReferenceError ''https'')))"
  by (simp add: predict_try_def https_Agent_def Let_def split: sum.splits)

lemma predict_calls: "fst (predict env req) = []"
  by (simp add: predict_def predict_try_eq split: sum.splits error.splits)

lemma predict_rejected:
  assumes "QuerySchema_parse (query req) = Inl (ZodError issues)"
  shows "predict env req =
    ([], Sent (res_json 400 (JObj [(''error'', JStr ''Invalid input parameters''),
                                   (''details'', JArr issues)])))"
  using assms by (simp add: predict_def predict_try_eq)

lemma predict_accepted:
  assumes "QuerySchema_parse (query req) = Inr v"
  shows "predict env req = ([], Next (Some TypeError))
    \<or> predict env req = ([], Next (Some (ReferenceError ''https'')))"
proof (cases "normalizeData env [distance v, ratio_to_median v, pin v, chip v, online v]")
  case (Inl e)
  then have "e = TypeError" by (rule normalizeData_throws)
  with Inl assms show ?thesis by (simp add: predict_def predict_try_eq)
next
  case (Inr nd)
  with assms show ?thesis by (simp add: predict_def predict_try_eq)
qed

lemma app_predict_route:
  assumes "http_method req = GET \<or> http_method req = HEAD" "path req = ''/predict''"
  shows "app env req =
     (case predict env req of
        (calls, Sent resp) \<Rightarrow> (calls, resp)
      | (calls, Next e) \<Rightarrow> (calls, finalhandler env e req))"
  using assms
  by (simp add: app_def app_stack_def layer_runs_def handler_of_def fn_length_def
      match_use_def match_route_def lower_def call_handler_def
      split: prod.splits outcome.splits)

lemma app_health_route:
  assumes "http_method req = GET \<or> http_method req = HEAD" "path req = ''/health''"
  shows "app env req = ([], res_json 200 (JObj [(''status'', JStr ''healthy'')]))"
  using assms
  by (simp add: app_def app_stack_def layer_runs_def handler_of_def fn_length_def
      match_use_def match_route_def lower_def call_handler_def)

lemma app_predict_rejected:
  assumes "http_method req = GET \<or> http_method req = HEAD" "path req = ''/predict''"
    and "QuerySchema_parse (query req) = Inl (ZodError issues)"
  shows "app env req =
    ([], res_json 400 (JObj [(''error'', JStr ''Invalid input parameters''),
                             (''details'', JArr issues)]))"
  using assms by (simp add: app_predict_route predict_rejected)

lemma app_predict_accepted:
  assumes "http_method req = GET \<or> http_method req = HEAD" "path req = ''/predict''"
    and "QuerySchema_parse (query req) = Inr v"
  shows "fst (app env req) = [] \<and> status (snd (app env req)) = 500
    \<and> (\<exists>pg. body (snd (app env req)) = HtmlBody pg)"
  using predict_accepted [OF assms(3), of env] assms(1,2)
  by (auto simp: app_predict_route finalhandler_def error_status_def)

text \<open>
  Whatever the environment, a GET request to \<open>/predict\<close> makes no call to the backend
  and is never answered by the error middleware: the answer is the 400 of the \<open>catch\<close>
  or a page of the final handler.
\<close>

lemma predict_route_makes_no_call:
  assumes "http_method req = GET \<or> http_method req = HEAD" "path req = ''/predict''"
  shows "fst (app env req) = []"
  using predict_calls [of env req] assms
  by (cases "predict env req") (auto simp: app_predict_route split: outcome.splits)

lemma predict_route_answers:
  assumes "http_method req = GET \<or> http_method req = HEAD" "path req = ''/predict''"
  shows "(\<exists>issues. snd (app env req) =
            res_json 400 (JObj [(''error'', JStr ''Invalid input parameters''),
                                (''details'', JArr issues)]))
    \<or> (\<exists>pg. snd (app env req) = \<lparr>status = 500, body = HtmlBody pg\<rparr>)"
proof (cases "QuerySchema_parse (query req)")
  case (Inl e)
  then obtain issues where "e = ZodError issues" using QuerySchema_parse_issues by blast
  with Inl show ?thesis using assms by (auto simp: app_predict_rejected)
next
  case (Inr v)
  then show ?thesis
    using predict_accepted [OF Inr, of env] assms
    by (auto simp: app_predict_route finalhandler_def error_status_def)
qed

lemma serve_keeps_env: "fst (serve env reqs) = env"
  by (induction reqs arbitrary: env) (simp_all add: handle_def split_beta)

section \<open>Claims\<close>

text \<open>
  C1. The validator accepts a \<open>distance\<close> that is not a number: with \<open>distance=abc\<close>
  and the other parameters of the scenario it returns the validated data with NaN for the
  distance, and the answer is not a 400.
\<close>

theorem non_numeric_distance_accepted:
  "QuerySchema_parse (query distance_abc_request) =
     Inr \<lparr>distance = NaN, ratio_to_median = Finite Pos (5404319552844595 / 2 ^ 52),
          pin = Finite Pos 1, chip = Finite Pos 1, online = Finite Pos 0\<rparr>
   \<and> status (snd (app scenario_env distance_abc_request)) \<noteq> 400"
proof -
  have v: "QuerySchema_parse (query distance_abc_request) =
     Inr \<lparr>distance = NaN, ratio_to_median = Finite Pos (5404319552844595 / 2 ^ 52),
          pin = Finite Pos 1, chip = Finite Pos 1, online = Finite Pos 0\<rparr>"
    using QuerySchema_parse_accepts [of "query distance_abc_request"
        "''abc''" "''1.2''" "''1''" "''1''" "''0''"]
    by (simp add: distance_abc_request_def scenario_request_def scenario_query_def
        StringToNumber_0 StringToNumber_1 StringToNumber_abc StringToNumber_1_2
        zero_or_one_0 zero_or_one_1)
  have "status (snd (app scenario_env distance_abc_request)) = 500"
    using app_predict_accepted [OF _ _ v, of scenario_env]
    by (simp add: distance_abc_request_def scenario_request_def)
  with v show ?thesis by simp
qed

text \<open>
  C2. The request of the scenario passes validation and normalization and fails at the
  creation of the agent. The error handed to \<open>next\<close> never reaches the error middleware,
  which is registered before the route: the final handler of Express answers, with status
  500 and an HTML page that shows the error's stack.
\<close>

theorem downstream_failure_unhandled:
  "app scenario_env scenario_request =
     ([], \<lparr>status = 500, body = HtmlBody (StackTrace (ReferenceError ''https''))\<rparr>)"
proof -
  obtain nd where "normalizeData scenario_env [Finite Pos 10,
      Finite Pos (5404319552844595 / 2 ^ 52), Finite Pos 1, Finite Pos 1, Finite Pos 0] = Inr nd"
    using scenario_normalizes by blast
  then have "predict scenario_env scenario_request = ([], Next (Some (ReferenceError ''https'')))"
    using scenario_query_accepted
    by (simp add: predict_def predict_try_eq scenario_request_def)
  moreover have "http_method scenario_request = GET" "path scenario_request = ''/predict''"
    by (simp_all add: scenario_request_def)
  ultimately show ?thesis
    by (simp add: app_predict_route finalhandler_def error_status_def scenario_env_def
        no_variables_def)
qed

text \<open>
  C3, as the specification states it, fails: a scaler artifact with a single mean and a
  single scale, which is zero, is loaded and the process listens.
\<close>

theorem short_scaler_is_loaded:
  "main short_scaler_files no_variables scenario_backend documentation =
     Listening \<lparr>scalerData = JObj [(''mean'', JArr [JNum (Finite Pos 1)]),
                                    (''scale'', JArr [JNum (Finite Pos 0)])],
                process_env = no_variables, axios_post = scenario_backend,
                swaggerUi = documentation\<rparr>"
  by (simp add: main_def load_scalerData_def fs_readFileSync_def JSON_parse_def bind_def
      short_scaler_files_def short_scaler_def)

text \<open>
  C3, amended. Starting the process fails when the scaler artifact is missing or is not
  JSON text. Otherwise the process listens with the value that the text denotes, of
  whatever shape, and that value is the process's scaler after any sequence of requests.
\<close>

theorem load_fails_fast:
  "(files ''src/scaler.json'' = None \<longrightarrow> main files vars post docs = Crashed ENOENT)
   \<and> (files ''src/scaler.json'' = Some Malformed
        \<longrightarrow> main files vars post docs = Crashed SyntaxError)
   \<and> (files ''src/scaler.json'' = Some (Denotes v)
        \<longrightarrow> main files vars post docs =
              Listening \<lparr>scalerData = v, process_env = vars, axios_post = post,
                         swaggerUi = docs\<rparr>
            \<and> scalerData (fst (serve \<lparr>scalerData = v, process_env = vars, axios_post = post,
                                      swaggerUi = docs\<rparr> reqs)) = v)"
  by (simp add: main_def load_scalerData_def fs_readFileSync_def JSON_parse_def bind_def
      serve_keeps_env)

theorem load_fails_fast_witness:
  "main no_files no_variables scenario_backend documentation = Crashed ENOENT
   \<and> main malformed_files no_variables scenario_backend documentation = Crashed SyntaxError
   \<and> main scenario_files no_variables scenario_backend documentation = Listening scenario_env
   \<and> scalerData (fst (serve scenario_env [scenario_request, health_request])) = scenario_scaler"
  using load_fails_fast [of no_files no_variables scenario_backend documentation
      scenario_scaler "[]"]
    load_fails_fast [of malformed_files no_variables scenario_backend documentation
      scenario_scaler "[]"]
    load_fails_fast [of scenario_files no_variables scenario_backend documentation scenario_scaler
      "[scenario_request, health_request]"]
  by (simp add: no_files_def malformed_files_def scenario_files_def scenario_env_def)

text \<open>
  C4, as the specification states it, fails: for the scenario's input the second
  component of the normalized vector is the number \<open>0.3999999999999999\<close>, which is not
  the number \<open>0.4\<close>, because \<open>1.2\<close> is not a binary64 value and \<open>1.2 - 1\<close> is below
  \<open>0.2\<close>.
\<close>

theorem normalized_scenario_counterexample:
  "normalizeData scenario_env (map StringToNumber [''10'', ''1.2'', ''1'', ''1'', ''0'']) =
     Inr (map StringToNumber [''2.5'', ''0.3999999999999999'', ''1'', ''1'', ''-1''])
   \<and> normalizeData scenario_env (map StringToNumber [''10'', ''1.2'', ''1'', ''1'', ''0'']) \<noteq>
     Inr (map StringToNumber [''2.5'', ''0.4'', ''1'', ''1'', ''-1''])"
  by (simp add: scenario_normalized StringToNumber_10 StringToNumber_1_2 StringToNumber_1
      StringToNumber_0 StringToNumber_2_5 StringToNumber_0_4 StringToNumber_0_39
      StringToNumber_minus_1)

text \<open>
  C4, amended. With a scaler whose \<open>mean\<close> and \<open>scale\<close> are arrays of five numbers,
  the normalizer returns for five raw values the five numbers
  \<open>(raw[i] - mean[i]) / scale[i]\<close>, each operation rounded to binary64. The validator
  turns the scenario's query into the numbers of its five strings, and for these the
  normalized vector is \<open>[2.5, 0.3999999999999999, 1, 1, -1]\<close>. The body that the
  handler's object literal builds for the backend from a normalized vector has that
  vector, unchanged, as the \<open>data\<close> of its one input, named \<open>dense_input\<close>.
\<close>

theorem normalizer_formula:
  assumes "get_property (scalerData env) ''mean'' = Inr (JArr (map JNum mean))"
    and "get_property (scalerData env) ''scale'' = Inr (JArr (map JNum scale))"
    and "length mean = 5" and "length scale = 5" and "length raw = 5"
  shows "normalizeData env raw =
      Inr (map (\<lambda>i. js_div (js_sub (raw ! i) (mean ! i)) (scale ! i)) [0..<5])
    \<and> QuerySchema_parse scenario_query =
      Inr \<lparr>distance = StringToNumber ''10'', ratio_to_median = StringToNumber ''1.2'',
           pin = StringToNumber ''1'', chip = StringToNumber ''1'',
           online = StringToNumber ''0''\<rparr>
    \<and> normalizeData scenario_env (map StringToNumber [''10'', ''1.2'', ''1'', ''1'', ''0'']) =
      Inr (map StringToNumber [''2.5'', ''0.3999999999999999'', ''1'', ''1'', ''-1''])
    \<and> inference_request normalizedData =
      JObj [(''inputs'', JArr [JObj
        [(''name'', JStr ''dense_input''),
         (''shape'', JArr [JNum (Finite Pos 1), JNum (Finite Pos 5)]),
         (''datatype'', JStr ''FP32''),
         (''data'', JArr (map JNum normalizedData))]])]"
proof -
  have "normalizeData env raw =
      Inr (map (\<lambda>i. js_div (js_sub (raw ! i) (mean ! i)) (scale ! i)) [0..<5])"
    using normalizeData_numbers [OF assms(1,2), of raw] assms(3,4,5) by simp
  moreover have "QuerySchema_parse scenario_query =
      Inr \<lparr>distance = StringToNumber ''10'', ratio_to_median = StringToNumber ''1.2'',
           pin = StringToNumber ''1'', chip = StringToNumber ''1'',
           online = StringToNumber ''0''\<rparr>"
    by (simp add: scenario_query_accepted StringToNumber_10 StringToNumber_1_2
        StringToNumber_1 StringToNumber_0)
  moreover have "normalizeData scenario_env
      (map StringToNumber [''10'', ''1.2'', ''1'', ''1'', ''0'']) =
      Inr (map StringToNumber [''2.5'', ''0.3999999999999999'', ''1'', ''1'', ''-1''])"
    by (simp add: scenario_normalized StringToNumber_10 StringToNumber_1_2 StringToNumber_1
      StringToNumber_0 StringToNumber_2_5 StringToNumber_0_39 StringToNumber_minus_1)
  ultimately show ?thesis by (simp add: inference_request_def)
qed

theorem normalizer_formula_witness:
  "length [Finite Pos 10, Finite Pos (5404319552844595 / 2 ^ 52), Finite Pos 1, Finite Pos 1,
      Finite Pos 0] = 5
   \<and> normalizeData scenario_env
     [Finite Pos 10, Finite Pos (5404319552844595 / 2 ^ 52), Finite Pos 1, Finite Pos 1,
      Finite Pos 0] =
   Inr (map (\<lambda>i. js_div
          (js_sub ([Finite Pos 10, Finite Pos (5404319552844595 / 2 ^ 52), Finite Pos 1,
                    Finite Pos 1, Finite Pos 0] ! i)
             ([Finite Pos 5, Finite Pos 1, Finite Pos (1 / 2), Finite Pos (1 / 2),
               Finite Pos (1 / 2)] ! i))
          ([Finite Pos 2, Finite Pos (1 / 2), Finite Pos (1 / 2), Finite Pos (1 / 2),
            Finite Pos (1 / 2)] ! i)) [0..<5])"
  using normalizer_formula [OF scenario_mean scenario_scale,
      of "[Finite Pos 10, Finite Pos (5404319552844595 / 2 ^ 52), Finite Pos 1, Finite Pos 1,
           Finite Pos 0]"]
  by simp

text \<open>
  C5. When the backend has answered and the answer's probability is a finite number, the
  handler's step from the call to the response (lines 155 to 171) sends status 200 with
  \<open>is_fraud\<close> true exactly when the probability is greater than the threshold of the
  environment, and the probability unchanged: against a finite threshold the comparison
  of the two values is strict, so that \<open>is_fraud\<close> is false when they are equal, against
  \<open>-Infinity\<close> every probability is fraud, against \<open>Infinity\<close> or NaN none is.
\<close>

theorem decision_is_strict:
  assumes "axios_post env (FRAUD_MODEL_URL env) (inference_request normalizedData) = Inr data"
    and "fraudProbability_of data = Inr (JNum (Finite s a))"
  shows "infer env normalizedData =
      ([(FRAUD_MODEL_URL env, inference_request normalizedData)],
       Inr \<lparr>status = 200,
            body = JsonBody (JObj
              [(''is_fraud'',
                JBool (case threshold env of
                         Finite t b \<Rightarrow> signed t b < signed s a
                       | Infinity t \<Rightarrow> t = Neg
                       | NaN \<Rightarrow> False)),
               (''fraud_probability'', JNum (Finite s a))])\<rparr>)
    \<and> (strict_equals (Finite s a) (threshold env) \<longrightarrow>
         snd (infer env normalizedData) =
           Inr \<lparr>status = 200,
                body = JsonBody (JObj [(''is_fraud'', JBool False),
                                       (''fraud_probability'', JNum (Finite s a))])\<rparr>)"
  using assms
  by (cases "threshold env")
    (simp_all add: infer_def Let_def prediction_def bind_def res_json_def)

theorem decision_is_strict_witness:
  "axios_post scenario_env (FRAUD_MODEL_URL scenario_env) (inference_request []) =
     Inr (JObj [(''outputs'', JArr [JObj [(''data'',
       JArr [JNum (Finite Pos (4368491638549381 / 2 ^ 52))])]])])
   \<and> fraudProbability_of (JObj [(''outputs'', JArr [JObj [(''data'',
       JArr [JNum (Finite Pos (4368491638549381 / 2 ^ 52))])]])]) =
     Inr (JNum (Finite Pos (4368491638549381 / 2 ^ 52)))
   \<and> threshold scenario_env = Finite Pos (4278419646001971 / 2 ^ 52)
   \<and> infer scenario_env [] =
      ([([], inference_request [])],
       Inr \<lparr>status = 200,
            body = JsonBody (JObj
              [(''is_fraud'', JBool True),
               (''fraud_probability'', JNum (Finite Pos (4368491638549381 / 2 ^ 52)))])\<rparr>)
   \<and> axios_post equal_threshold_env (FRAUD_MODEL_URL equal_threshold_env)
       (inference_request []) =
     Inr (JObj [(''outputs'', JArr [JObj [(''data'',
       JArr [JNum (Finite Pos (4368491638549381 / 2 ^ 52))])]])])
   \<and> strict_equals (Finite Pos (4368491638549381 / 2 ^ 52)) (threshold equal_threshold_env)
   \<and> snd (infer equal_threshold_env []) =
       Inr \<lparr>status = 200,
            body = JsonBody (JObj
              [(''is_fraud'', JBool False),
               (''fraud_probability'', JNum (Finite Pos (4368491638549381 / 2 ^ 52)))])\<rparr>"
proof -
  let ?p = "Finite Pos (4368491638549381 / 2 ^ 52)"
  let ?data = "JObj [(''outputs'', JArr [JObj [(''data'', JArr [JNum ?p])]])]"
  have backend: "scenario_backend url payload = Inr ?data" for url payload
    by (simp add: scenario_backend_def to_double_normal [where e = "- 1"] rounding)
  have p: "fraudProbability_of ?data = Inr (JNum ?p)"
    by (simp add: fraudProbability_of_def bind_def)
  have a1: "axios_post scenario_env (FRAUD_MODEL_URL scenario_env) (inference_request []) =
      Inr ?data"
    using backend by (simp add: scenario_env_def)
  have a2: "axios_post equal_threshold_env (FRAUD_MODEL_URL equal_threshold_env)
      (inference_request []) = Inr ?data"
    using backend by (simp add: equal_threshold_env_def scenario_env_def)
  have t1: "threshold scenario_env = Finite Pos (4278419646001971 / 2 ^ 52)"
    by (simp add: threshold_def Number_def scenario_env_def no_variables_def
        to_double_normal [where e = "- 1"] rounding)
  have t2: "threshold equal_threshold_env = ?p"
    by (simp add: threshold_def Number_def equal_threshold_env_def scenario_env_def
        parsing to_double_normal [where e = "- 1"] rounding)
  have u: "FRAUD_MODEL_URL scenario_env = []"
    by (simp add: FRAUD_MODEL_URL_def scenario_env_def no_variables_def)
  have e: "strict_equals ?p (threshold equal_threshold_env)"
    unfolding t2 by simp
  have 1: "infer scenario_env [] =
      ([([], inference_request [])],
       Inr \<lparr>status = 200,
            body = JsonBody (JObj [(''is_fraud'', JBool True),
                                   (''fraud_probability'', JNum ?p)])\<rparr>)"
    using decision_is_strict [OF a1 p] by (simp add: t1 u signed_def)
  have 2: "snd (infer equal_threshold_env []) =
      Inr \<lparr>status = 200,
           body = JsonBody (JObj [(''is_fraud'', JBool False),
                                  (''fraud_probability'', JNum ?p)])\<rparr>"
    using decision_is_strict [OF a2 p] e by blast
  show ?thesis
    by (intro conjI) (rule a1 p t1 1 a2 e 2)+
qed

text \<open>
  C6. For a GET request to \<open>/predict\<close> in which one of the five required parameters
  is missing, or in which \<open>pin\<close>, \<open>chip\<close> or \<open>online\<close> is a string whose number is
  neither \<open>=== 0\<close> nor \<open>=== 1\<close>, validation fails and the answer has status 400, with
  no call to the backend; with \<open>pin=2\<close> the details of the answer have an entry whose
  path is \<open>pin\<close>.
\<close>

theorem flags_and_required_keys:
  assumes "http_method req = GET" and "path req = ''/predict''"
  shows "((\<exists>k \<in> set [''distance'', ''ratio_to_median'', ''pin'', ''chip'', ''online''].
             query req k = None)
          \<or> (\<exists>k \<in> set [''pin'', ''chip'', ''online'']. \<exists>s.
                query req k = Some (QString s)
                \<and> \<not> strict_equals (StringToNumber s) (Finite Pos 0)
                \<and> \<not> strict_equals (StringToNumber s) (Finite Pos 1))
         \<longrightarrow> (\<exists>issues. QuerySchema_parse (query req) = Inl (ZodError issues))
             \<and> fst (app env req) = [] \<and> status (snd (app env req)) = 400)
    \<and> (query req ''pin'' = Some (QString ''2'')
         \<longrightarrow> (\<exists>issues.
                snd (app env req) =
                  \<lparr>status = 400,
                   body = JsonBody (JObj [(''error'', JStr ''Invalid input parameters''),
                                          (''details'', JArr issues)])\<rparr>
                \<and> (\<exists>issue \<in> set issues.
                      get_property issue ''path'' = Inr (JArr [JStr ''pin'']))))"
proof (rule conjI; rule impI)
  assume h: "(\<exists>k \<in> set [''distance'', ''ratio_to_median'', ''pin'', ''chip'', ''online''].
             query req k = None)
          \<or> (\<exists>k \<in> set [''pin'', ''chip'', ''online'']. \<exists>s.
                query req k = Some (QString s)
                \<and> \<not> strict_equals (StringToNumber s) (Finite Pos 0)
                \<and> \<not> strict_equals (StringToNumber s) (Finite Pos 1))"
  then have "(\<forall>s. query req ''distance'' \<noteq> Some (QString s))
    \<or> (\<forall>s. query req ''ratio_to_median'' \<noteq> Some (QString s))
    \<or> \<not> (\<exists>s. query req ''pin'' = Some (QString s) \<and> zero_or_one (StringToNumber s))
    \<or> \<not> (\<exists>s. query req ''chip'' = Some (QString s) \<and> zero_or_one (StringToNumber s))
    \<or> \<not> (\<exists>s. query req ''online'' = Some (QString s) \<and> zero_or_one (StringToNumber s))"
    by (auto simp: zero_or_one_def)
  then obtain issues where i: "QuerySchema_parse (query req) = Inl (ZodError issues)"
    using QuerySchema_parse_rejects by blast
  then have "app env req =
      ([], res_json 400 (JObj [(''error'', JStr ''Invalid input parameters''),
                               (''details'', JArr issues)]))"
    using assms by (simp add: app_predict_rejected)
  then show "(\<exists>issues. QuerySchema_parse (query req) = Inl (ZodError issues))
      \<and> fst (app env req) = [] \<and> status (snd (app env req)) = 400"
    using i by (simp add: res_json_def)
next
  assume "query req ''pin'' = Some (QString ''2'')"
  then obtain issues where i: "QuerySchema_parse (query req) = Inl (ZodError issues)"
      "custom_issue ''pin'' \<in> set issues"
    using pin_two_issues by blast
  then have "app env req =
      ([], res_json 400 (JObj [(''error'', JStr ''Invalid input parameters''),
                               (''details'', JArr issues)]))"
    using assms by (simp add: app_predict_rejected)
  then show "\<exists>issues.
      snd (app env req) =
        \<lparr>status = 400,
         body = JsonBody (JObj [(''error'', JStr ''Invalid input parameters''),
                                (''details'', JArr issues)])\<rparr>
      \<and> (\<exists>issue \<in> set issues. get_property issue ''path'' = Inr (JArr [JStr ''pin'']))"
    using i(2) custom_issue_path by (auto simp: res_json_def)
qed

theorem flags_and_required_keys_witness:
  "http_method pin_two_request = GET \<and> path pin_two_request = ''/predict''
   \<and> query pin_two_request ''pin'' = Some (QString ''2'')
   \<and> StringToNumber ''2'' = Finite Pos 2
   \<and> \<not> strict_equals (StringToNumber ''2'') (Finite Pos 0)
   \<and> \<not> strict_equals (StringToNumber ''2'') (Finite Pos 1)
   \<and> (\<exists>issues. QuerySchema_parse (query pin_two_request) = Inl (ZodError issues))
   \<and> fst (app scenario_env pin_two_request) = []
   \<and> status (snd (app scenario_env pin_two_request)) = 400
   \<and> (\<exists>issues.
        snd (app scenario_env pin_two_request) =
          \<lparr>status = 400,
           body = JsonBody (JObj [(''error'', JStr ''Invalid input parameters''),
                                  (''details'', JArr issues)])\<rparr>
        \<and> (\<exists>issue \<in> set issues. get_property issue ''path'' = Inr (JArr [JStr ''pin''])))"
  using flags_and_required_keys [of pin_two_request scenario_env]
  by (simp add: pin_two_request_def scenario_request_def scenario_query_def
      StringToNumber_2 signed_def)

text \<open>
  C7, as the specification states it, fails. With means of zero and scales of two, the
  round trip of the vector of five times \<open>2\<^sup>1\<^sup>0\<^sup>2\<^sup>3\<close> is five times
  \<open>Infinity\<close>, the doubling having overflowed: no tolerance covers that. With means of
  \<open>2\<^sup>5\<^sup>3\<close> and scales of one, the round trip of five ones is five zeros,
  \<open>1 + 2\<^sup>5\<^sup>3\<close> having been rounded to \<open>2\<^sup>5\<^sup>3\<close>: the error is as large as the
  value, so no tolerance that is relative to the value covers it.
\<close>

theorem round_trip_counterexample:
  "normalizeData doubling_env (denormalize zeros twos huge) =
     Inr [Infinity Pos, Infinity Pos, Infinity Pos, Infinity Pos, Infinity Pos]
   \<and> normalizeData offset_env (denormalize offsets ones ones) =
     Inr [Finite Pos 0, Finite Pos 0, Finite Pos 0, Finite Pos 0, Finite Pos 0]"
proof -
  have d: "denormalize zeros twos huge =
      [Infinity Pos, Infinity Pos, Infinity Pos, Infinity Pos, Infinity Pos]"
    unfolding denormalize_def zeros_def twos_def huge_def
    by (simp add: upt_0_5 xor_sign_def to_double_normal [where e = 1024] rounding)
  have 1: "normalizeData doubling_env (denormalize zeros twos huge) =
      Inr [Infinity Pos, Infinity Pos, Infinity Pos, Infinity Pos, Infinity Pos]"
    unfolding d
    using normalizeData_numbers [OF doubling_mean doubling_scale,
        of "[Infinity Pos, Infinity Pos, Infinity Pos, Infinity Pos, Infinity Pos]"]
    by (simp add: upt_0_5 zeros_def twos_def xor_sign_def)
  have e: "denormalize offsets ones ones = offsets"
    unfolding denormalize_def offsets_def ones_def
    by (simp add: upt_0_5 xor_sign_def signed_def sign_of_def
        to_double_normal [where e = 0] to_double_normal [where e = 53] rounding)
  have 2: "normalizeData offset_env (denormalize offsets ones ones) =
      Inr [Finite Pos 0, Finite Pos 0, Finite Pos 0, Finite Pos 0, Finite Pos 0]"
    unfolding e
    using normalizeData_numbers [OF offset_mean offset_scale, of offsets]
    by (simp add: upt_0_5 offsets_def ones_def xor_sign_def signed_def to_double_def)
  show ?thesis using 1 2 by simp
qed

text \<open>
  C7, amended. Normalization is elementwise, \<open>(raw[i] - mean[i]) / scale[i]\<close> in
  binary64 arithmetic. For five finite numbers \<open>x\<close> and finite means and scales, no
  scale being zero, every element of \<open>normalize(denormalize(x))\<close> that is finite, no
  operation having overflowed, differs from \<open>x[i]\<close> by at most
  \<open>(\<bar>x[i]\<bar> + \<bar>mean[i] / scale[i]\<bar>) / 2\<^sup>5\<^sup>0 + (1 + 1 / \<bar>scale[i]\<bar>) / 2\<^sup>1\<^sup>0\<^sup>7\<^sup>2\<close>; and it is
  finite whenever \<open>\<bar>x[i] * scale[i]\<bar> + \<bar>mean[i]\<bar>\<close> and \<open>\<bar>x[i]\<bar> + \<bar>mean[i] / scale[i]\<bar>\<close>
  are at most \<open>2\<^sup>1\<^sup>0\<^sup>2\<^sup>2\<close>.
\<close>

theorem round_trip_within_tolerance:
  assumes "get_property (scalerData env) ''mean'' = Inr (JArr (map JNum mean))"
    and "get_property (scalerData env) ''scale'' = Inr (JArr (map JNum scale))"
    and "length mean = 5" and "length scale = 5" and "length x = 5"
    and "\<forall>i<5. finite_double (x ! i) \<and> finite_double (mean ! i) \<and> finite_double (scale ! i)
           \<and> value_of (scale ! i) \<noteq> 0"
  shows "(\<forall>raw. length raw = 5 \<longrightarrow>
       normalizeData env raw =
         Inr (map (\<lambda>i. js_div (js_sub (raw ! i) (mean ! i)) (scale ! i)) [0..<5]))
    \<and> (\<exists>r. normalizeData env (denormalize mean scale x) = Inr r \<and> length r = 5
          \<and> (\<forall>i<5.
                (finite_double (r ! i) \<longrightarrow>
                   \<bar>value_of (r ! i) - value_of (x ! i)\<bar>
                     \<le> (\<bar>value_of (x ! i)\<bar> + \<bar>value_of (mean ! i) / value_of (scale ! i)\<bar>)
                          / 2 ^ 50
                        + (1 + 1 / \<bar>value_of (scale ! i)\<bar>) / 2 ^ 1072)
              \<and> (\<bar>value_of (x ! i) * value_of (scale ! i)\<bar> + \<bar>value_of (mean ! i)\<bar>
                     \<le> 2 ^ 1022
                   \<and> \<bar>value_of (x ! i)\<bar> + \<bar>value_of (mean ! i) / value_of (scale ! i)\<bar>
                     \<le> 2 ^ 1022 \<longrightarrow>
                 finite_double (r ! i))))"
proof -
  have elementwise: "normalizeData env raw =
      Inr (map (\<lambda>i. js_div (js_sub (raw ! i) (mean ! i)) (scale ! i)) [0..<5])"
    if "length raw = 5" for raw
    using normalizeData_numbers [OF assms(1,2), of raw] that assms(3,4) by simp
  let ?d = "denormalize mean scale x"
  let ?r = "map (\<lambda>i. js_div (js_sub (?d ! i) (mean ! i)) (scale ! i)) [0..<length ?d]"
  have len: "length ?d = 5" using assms(5) by (simp add: denormalize_def)
  have n: "normalizeData env ?d = Inr ?r"
    using normalizeData_numbers [OF assms(1,2), of ?d] len assms(3,4) by simp
  have "(finite_double (?r ! i) \<longrightarrow>
          \<bar>value_of (?r ! i) - value_of (x ! i)\<bar>
            \<le> (\<bar>value_of (x ! i)\<bar> + \<bar>value_of (mean ! i) / value_of (scale ! i)\<bar>) / 2 ^ 50
               + (1 + 1 / \<bar>value_of (scale ! i)\<bar>) / 2 ^ 1072)
      \<and> (\<bar>value_of (x ! i) * value_of (scale ! i)\<bar> + \<bar>value_of (mean ! i)\<bar> \<le> 2 ^ 1022
           \<and> \<bar>value_of (x ! i)\<bar> + \<bar>value_of (mean ! i) / value_of (scale ! i)\<bar> \<le> 2 ^ 1022
          \<longrightarrow> finite_double (?r ! i))"
    if i: "i < 5" for i
  proof -
    have h: "finite_double (x ! i)" "finite_double (mean ! i)" "finite_double (scale ! i)"
      "value_of (scale ! i) \<noteq> 0"
      using assms(6) i by auto
    obtain sx ax where x: "x ! i = Finite sx ax" "0 \<le> ax"
      using h(1) by (rule finite_doubleE)
    obtain sm am where m: "mean ! i = Finite sm am" "0 \<le> am"
      using h(2) by (rule finite_doubleE)
    obtain ss as where s: "scale ! i = Finite ss as" "0 \<le> as" "representable as"
      using h(3) by (rule finite_doubleE)
    have s0: "0 < as" using h(4) s by (cases ss) (auto simp: value_of_def signed_def)
    have di: "?d ! i = js_add (js_mul (x ! i) (scale ! i)) (mean ! i)"
      using i assms(5) by (simp add: denormalize_def)
    have ri: "?r ! i = js_div (js_sub (?d ! i) (mean ! i)) (scale ! i)"
      using i len by simp
    show ?thesis
      unfolding ri di x(1) m(1) s(1)
      using round_trip_element [OF x(2) m(2) s0, of sx ss sm] s(3)
      by (simp add: value_of_def)
  qed
  then show ?thesis using n len elementwise by auto
qed

theorem round_trip_within_tolerance_witness:
  "length scenario_mean_list = 5 \<and> length scenario_scale_list = 5 \<and> length two_fifths = 5
   \<and> normalizeData scenario_env two_fifths =
       Inr (map (\<lambda>i. js_div (js_sub (two_fifths ! i) (scenario_mean_list ! i))
                      (scenario_scale_list ! i)) [0..<5])
   \<and> normalizeData scenario_env
         (denormalize scenario_mean_list scenario_scale_list two_fifths) =
       Inr [Finite Pos (3602879701896396 / 2 ^ 53), Finite Pos (3602879701896396 / 2 ^ 53),
            Finite Pos (3602879701896396 / 2 ^ 53), Finite Pos (3602879701896396 / 2 ^ 53),
            Finite Pos (3602879701896396 / 2 ^ 53)]
   \<and> (\<exists>r. normalizeData scenario_env
              (denormalize scenario_mean_list scenario_scale_list two_fifths) = Inr r
          \<and> length r = 5
          \<and> (\<forall>i<5. finite_double (r ! i)
                \<and> \<bar>value_of (r ! i) - value_of (two_fifths ! i)\<bar>
                    \<le> (\<bar>value_of (two_fifths ! i)\<bar>
                         + \<bar>value_of (scenario_mean_list ! i)
                             / value_of (scenario_scale_list ! i)\<bar>) / 2 ^ 50
                       + (1 + 1 / \<bar>value_of (scenario_scale_list ! i)\<bar>) / 2 ^ 1072))"
proof -
  have h: "\<forall>i<5. finite_double (two_fifths ! i) \<and> finite_double (scenario_mean_list ! i)
      \<and> finite_double (scenario_scale_list ! i)
      \<and> value_of (scenario_scale_list ! i) \<noteq> 0"
    unfolding all_less_5
    by (simp add: two_fifths_def scenario_mean_list_def scenario_scale_list_def
        finite_double_def representable_def value_of_def signed_def rounding
        to_double_normal [where e = "- 2"] to_double_normal [where e = "- 1"]
        to_double_normal [where e = 0] to_double_normal [where e = 1]
        to_double_normal [where e = 2])
  have b: "\<forall>i<5.
      \<bar>value_of (two_fifths ! i) * value_of (scenario_scale_list ! i)\<bar>
          + \<bar>value_of (scenario_mean_list ! i)\<bar> \<le> 2 ^ 1022
      \<and> \<bar>value_of (two_fifths ! i)\<bar>
          + \<bar>value_of (scenario_mean_list ! i) / value_of (scenario_scale_list ! i)\<bar>
          \<le> 2 ^ 1022"
    unfolding all_less_5
    by (simp add: two_fifths_def scenario_mean_list_def scenario_scale_list_def
        value_of_def signed_def)
  have l: "length scenario_mean_list = 5" "length scenario_scale_list = 5"
    "length two_fifths = 5"
    by (simp_all add: two_fifths_def scenario_mean_list_def scenario_scale_list_def)
  note t = round_trip_within_tolerance [OF scenario_mean_is_list scenario_scale_is_list l h]
  have 1: "normalizeData scenario_env two_fifths =
       Inr (map (\<lambda>i. js_div (js_sub (two_fifths ! i) (scenario_mean_list ! i))
                      (scenario_scale_list ! i)) [0..<5])"
    using t l by blast
  obtain r where r: "normalizeData scenario_env
        (denormalize scenario_mean_list scenario_scale_list two_fifths) = Inr r"
      "length r = 5"
    and ri: "\<And>i. i < 5 \<Longrightarrow>
        (finite_double (r ! i) \<longrightarrow>
           \<bar>value_of (r ! i) - value_of (two_fifths ! i)\<bar>
             \<le> (\<bar>value_of (two_fifths ! i)\<bar>
                  + \<bar>value_of (scenario_mean_list ! i) / value_of (scenario_scale_list ! i)\<bar>)
                  / 2 ^ 50
                + (1 + 1 / \<bar>value_of (scenario_scale_list ! i)\<bar>) / 2 ^ 1072)
        \<and> (\<bar>value_of (two_fifths ! i) * value_of (scenario_scale_list ! i)\<bar>
               + \<bar>value_of (scenario_mean_list ! i)\<bar> \<le> 2 ^ 1022
             \<and> \<bar>value_of (two_fifths ! i)\<bar>
               + \<bar>value_of (scenario_mean_list ! i) / value_of (scenario_scale_list ! i)\<bar>
               \<le> 2 ^ 1022 \<longrightarrow>
           finite_double (r ! i))"
    using t by blast
  have 2: "\<forall>i<5. finite_double (r ! i)
      \<and> \<bar>value_of (r ! i) - value_of (two_fifths ! i)\<bar>
          \<le> (\<bar>value_of (two_fifths ! i)\<bar>
               + \<bar>value_of (scenario_mean_list ! i) / value_of (scenario_scale_list ! i)\<bar>)
               / 2 ^ 50
             + (1 + 1 / \<bar>value_of (scenario_scale_list ! i)\<bar>) / 2 ^ 1072"
    using ri b by blast
  show ?thesis
    using l 1 two_fifths_round_trip r 2 by blast
qed

text \<open>
  C8. The request of the scenario passes validation, and the handler makes no call to the
  backend for it.
\<close>

theorem valid_request_makes_no_call:
  "QuerySchema_parse (query scenario_request) =
     Inr \<lparr>distance = Finite Pos 10, ratio_to_median = Finite Pos (5404319552844595 / 2 ^ 52),
          pin = Finite Pos 1, chip = Finite Pos 1, online = Finite Pos 0\<rparr>
   \<and> fst (app scenario_env scenario_request) = []"
proof -
  have v: "QuerySchema_parse (query scenario_request) =
     Inr \<lparr>distance = Finite Pos 10, ratio_to_median = Finite Pos (5404319552844595 / 2 ^ 52),
          pin = Finite Pos 1, chip = Finite Pos 1, online = Finite Pos 0\<rparr>"
    using scenario_query_accepted by (simp add: scenario_request_def)
  have "fst (app scenario_env scenario_request) = []"
    using app_predict_accepted [OF _ _ v, of scenario_env]
    by (simp add: scenario_request_def)
  with v show ?thesis by simp
qed

text \<open>
  C9. Every GET request to \<open>/health\<close> is answered with status 200 and the body
  \<open>{"status": "healthy"}\<close>, whatever the backend, the environment variables and the
  scaler are, and without any call to the backend.
\<close>

theorem health_always_healthy:
  assumes "http_method req = GET" and "path req = ''/health''"
  shows "app env req =
    ([], \<lparr>status = 200, body = JsonBody (JObj [(''status'', JStr ''healthy'')])\<rparr>)"
  using assms by (simp add: app_health_route res_json_def)

theorem health_always_healthy_witness:
  "http_method health_request = GET \<and> path health_request = ''/health''
   \<and> app scenario_env health_request =
       ([], \<lparr>status = 200, body = JsonBody (JObj [(''status'', JStr ''healthy'')])\<rparr>)"
  using health_always_healthy [of health_request scenario_env]
  by (simp add: health_request_def)

text \<open>
  C10. A \<open>pin\<close>, \<open>chip\<close> or \<open>online\<close> that is present and empty is accepted by the
  validator as the value 0: a request whose flags are each empty or valid passes
  validation, the empty ones with the value 0, and is not answered with status 400.
\<close>

theorem empty_flag_is_zero:
  assumes "http_method req = GET" and "path req = ''/predict''"
    and "query req ''distance'' = Some (QString d)"
    and "query req ''ratio_to_median'' = Some (QString r)"
    and "query req ''pin'' = Some (QString p)" and "p = [] \<or> zero_or_one (StringToNumber p)"
    and "query req ''chip'' = Some (QString c)" and "c = [] \<or> zero_or_one (StringToNumber c)"
    and "query req ''online'' = Some (QString n)" and "n = [] \<or> zero_or_one (StringToNumber n)"
  shows "QuerySchema_parse (query req) =
      Inr \<lparr>distance = StringToNumber d, ratio_to_median = StringToNumber r,
           pin = (if p = [] then Finite Pos 0 else StringToNumber p),
           chip = (if c = [] then Finite Pos 0 else StringToNumber c),
           online = (if n = [] then Finite Pos 0 else StringToNumber n)\<rparr>
    \<and> status (snd (app env req)) \<noteq> 400"
proof -
  have z: "zero_or_one (StringToNumber p)" "zero_or_one (StringToNumber c)"
    "zero_or_one (StringToNumber n)"
    using assms(6,8,10) by (auto simp: StringToNumber_empty zero_or_one_0)
  have ok: "QuerySchema_parse (query req) =
      Inr \<lparr>distance = StringToNumber d, ratio_to_median = StringToNumber r,
           pin = StringToNumber p, chip = StringToNumber c, online = StringToNumber n\<rparr>"
    using QuerySchema_parse_accepts [OF assms(3,4,5,7,9) z] .
  have "status (snd (app env req)) = 500"
    using app_predict_accepted [OF _ assms(2) ok, of env] assms(1) by simp
  with ok show ?thesis by (auto simp: StringToNumber_empty)
qed

theorem empty_flag_is_zero_witness:
  "QuerySchema_parse (query pin_empty_request) =
      Inr \<lparr>distance = StringToNumber ''10'', ratio_to_median = StringToNumber ''1.2'',
           pin = Finite Pos 0, chip = StringToNumber ''1'', online = StringToNumber ''0''\<rparr>
    \<and> status (snd (app scenario_env pin_empty_request)) \<noteq> 400"
  using empty_flag_is_zero [of pin_empty_request "''10''" "''1.2''" "[]" "''1''" "''0''" scenario_env]
  by (simp add: pin_empty_request_def scenario_request_def scenario_query_def
      StringToNumber_0 StringToNumber_1 zero_or_one_0 zero_or_one_1)

end
